theory Spec2Isabelle
  imports Complex_Main
begin

section \<open>The JavaScript runtime the monitor runs on\<close>

text \<open>
  The monitor (\<^verbatim>\<open>core.ts\<close>, \<^verbatim>\<open>datetime.ts\<close>, \<^verbatim>\<open>mod.ts\<close>) is written against
  services of the JavaScript runtime that are not code of the repository. They are taken
  as parameters of the model, collected in one record:
  \<^item> \<open>parseDate\<close>: the \<^verbatim>\<open>Date\<close> constructor on a string; \<open>None\<close> is the invalid date
    (\<^verbatim>\<open>isNaN(date.getTime())\<close>), \<open>Some t\<close> the instant in milliseconds since the epoch;
  \<^item> \<open>zoneOffset\<close>: the time zone database behind \<^verbatim>\<open>Intl.DateTimeFormat\<close>; \<open>None\<close>
    is an identifier the constructor rejects with a \<^verbatim>\<open>RangeError\<close>, \<open>Some f\<close> a zone
    whose wall clock is \<open>f t\<close> milliseconds ahead of UTC at the instant \<open>t\<close>;
  \<^item> \<open>hostZone\<close>: the zone identifier the host reports
    (\<^verbatim>\<open>Intl.DateTimeFormat().resolvedOptions().timeZone\<close>);
  \<^item> \<open>hostOffsetAt\<close> and \<open>hostUTC\<close>: the local clock of the host, on which the
    \<^verbatim>\<open>Date\<close> methods \<^verbatim>\<open>getHours\<close>, \<^verbatim>\<open>setHours\<close>, \<^verbatim>\<open>setMinutes\<close>, \<^verbatim>\<open>getDate\<close> and
    \<^verbatim>\<open>setDate\<close> work. \<open>hostOffsetAt t\<close> is the offset of the local clock at the instant
    \<open>t\<close> (the operation \<^verbatim>\<open>LocalTime\<close> of ECMAScript adds it); \<open>hostUTC l\<close> is the
    instant that the reading \<open>l\<close> of the local clock denotes (the operation \<^verbatim>\<open>UTC\<close> of
    ECMAScript, which also settles the readings a clock skips or shows twice when the
    offset of the zone changes).

  Abstractions of the model, all of them about the runtime and none about the repository's
  code: instants are unbounded integers (the \<^verbatim>\<open>Date\<close> range of about 285000 years around
  the epoch is not modelled); JavaScript numbers that hold fractions are real numbers (no
  rounding); the hour formatter prints hours \<open>0\<close> to \<open>23\<close>.
\<close>

record runtime =
  hostZone :: string
  hostOffsetAt :: "int \<Rightarrow> int"
  hostUTC :: "int \<Rightarrow> int"
  zoneOffset :: "string \<Rightarrow> (int \<Rightarrow> int) option"
  parseDate :: "string \<Rightarrow> int option"

datatype error = InvalidISO string | RangeError string

definition msPerMinute :: int where
  "msPerMinute = 60000"

definition msPerHour :: int where
  "msPerHour = 3600000"

definition msPerDay :: int where
  "msPerDay = 86400000"

definition localTime :: "runtime \<Rightarrow> int \<Rightarrow> int" where
  "localTime rt t = t + hostOffsetAt rt t"

text \<open>\<^verbatim>\<open>ToIntegerOrInfinity\<close>: the setters of \<^verbatim>\<open>Date\<close> drop the fraction of an argument.\<close>

definition toInteger :: "real \<Rightarrow> int" where
  "toInteger x = (if 0 \<le> x then \<lfloor>x\<rfloor> else \<lceil>x\<rceil>)"

definition Date_getHours :: "runtime \<Rightarrow> int \<Rightarrow> int" where
  "Date_getHours rt t = (localTime rt t div msPerHour) mod 24"

definition Date_getMinutes :: "runtime \<Rightarrow> int \<Rightarrow> int" where
  "Date_getMinutes rt t = (localTime rt t div msPerMinute) mod 60"

text \<open>
  \<^verbatim>\<open>d.setHours(h)\<close> keeps the local day, minute, second and millisecond;
  \<^verbatim>\<open>d.setHours(0, 0, 0, 0)\<close> is the local midnight of the day;
  \<^verbatim>\<open>d.setMinutes(m)\<close> keeps the local day, hour, second and millisecond.
  An argument outside the range of the field carries over into the next field. Each
  setter composes the new reading of the local clock and takes the instant it denotes.
\<close>

definition Date_setHours :: "runtime \<Rightarrow> int \<Rightarrow> real \<Rightarrow> int" where
  "Date_setHours rt t h =
     hostUTC rt
       ((localTime rt t div msPerDay) * msPerDay + toInteger h * msPerHour
          + (localTime rt t mod msPerHour))"

definition Date_setHours0 :: "runtime \<Rightarrow> int \<Rightarrow> int" where
  "Date_setHours0 rt t = hostUTC rt ((localTime rt t div msPerDay) * msPerDay)"

definition Date_setMinutes :: "runtime \<Rightarrow> int \<Rightarrow> real \<Rightarrow> int" where
  "Date_setMinutes rt t m =
     hostUTC rt
       ((localTime rt t div msPerHour) * msPerHour + toInteger m * msPerMinute
          + (localTime rt t mod msPerMinute))"

text \<open>
  The day of the month of a day counted from the epoch, in the proleptic Gregorian
  calendar (\<^verbatim>\<open>DateFromTime\<close>): the day is located in its cycle of 400 years, then in its
  year counted from the first of March, then in its month.
\<close>

definition dayOfMonth :: "int \<Rightarrow> int" where
  "dayOfMonth dayNumber =
     (let z = dayNumber + 719468;
          doe = z mod 146097;
          yoe = (doe - doe div 1460 + doe div 36524 - doe div 146096) div 365;
          doy = doe - (365 * yoe + yoe div 4 - yoe div 100);
          mp = (5 * doy + 2) div 153
      in doy - (153 * mp + 2) div 5 + 1)"

definition Date_getDate :: "runtime \<Rightarrow> int \<Rightarrow> int" where
  "Date_getDate rt t = dayOfMonth (localTime rt t div msPerDay)"

text \<open>
  \<^verbatim>\<open>d.setDate(x)\<close> keeps the local month and the time within the day: the day of the
  month carries over into the month and the year, so the local day moves by the whole
  part of \<open>x\<close> less the present day of the month.
\<close>

definition Date_setDate :: "runtime \<Rightarrow> int \<Rightarrow> real \<Rightarrow> int" where
  "Date_setDate rt t x =
     hostUTC rt
       ((localTime rt t div msPerDay + toInteger x - Date_getDate rt t) * msPerDay
          + (localTime rt t mod msPerDay))"

section \<open>The date-time module (\<^verbatim>\<open>datetime.ts\<close>)\<close>

record DateTime =
  date :: int
  zoneName :: "string option"

record DurationLike =
  minutes :: "real option"
  hours :: "real option"
  days :: "real option"

definition noDuration :: DurationLike where
  "noDuration = \<lparr>minutes = None, hours = None, days = None\<rparr>"

text \<open>Truthiness of an optional string and of an optional number.\<close>

fun truthyStr :: "string option \<Rightarrow> bool" where
  "truthyStr None = False"
| "truthyStr (Some s) = (s \<noteq> [])"

fun truthyNum :: "real option \<Rightarrow> bool" where
  "truthyNum None = False"
| "truthyNum (Some x) = (x \<noteq> 0)"

fun truthyFlag :: "bool option \<Rightarrow> bool" where
  "truthyFlag None = False"
| "truthyFlag (Some b) = b"

text \<open>\<^verbatim>\<open>now()\<close>; the reading of the system clock is an argument.\<close>

definition now :: "runtime \<Rightarrow> int \<Rightarrow> DateTime" where
  "now rt clock = \<lparr>date = clock, zoneName = Some (hostZone rt)\<rparr>"

definition isDigit :: "char \<Rightarrow> bool" where
  "isDigit c = (c \<in> set ''0123456789'')"

text \<open>The regular expression \<^verbatim>\<open>/([+-]\d{2}:\d{2}|Z)$/\<close> of \<^verbatim>\<open>fromISO\<close>.\<close>

fun tzMatchRev :: "string \<Rightarrow> bool" where
  "tzMatchRev (m2 # m1 # c # h2 # h1 # s # rest) =
     (m2 = CHR ''Z'' \<or>
      (isDigit m2 \<and> isDigit m1 \<and> c = CHR '':'' \<and> isDigit h2 \<and> isDigit h1
        \<and> (s = CHR ''+'' \<or> s = CHR ''-'')))"
| "tzMatchRev (z # rest) = (z = CHR ''Z'')"
| "tzMatchRev [] = False"

definition tzMatch :: "string \<Rightarrow> bool" where
  "tzMatch isoString = tzMatchRev (rev isoString)"

definition fromISO :: "runtime \<Rightarrow> string \<Rightarrow> error + DateTime" where
  "fromISO rt isoString =
     (case parseDate rt isoString of
        None \<Rightarrow> Inl (InvalidISO isoString)
      | Some t \<Rightarrow>
          Inr \<lparr>date = t,
               zoneName = (if tzMatch isoString then Some (hostZone rt) else None)\<rparr>)"

text \<open>
  \<^verbatim>\<open>setZone\<close> catches the \<^verbatim>\<open>RangeError\<close> of an unknown zone itself and returns its
  argument unchanged, so it never throws.
\<close>

definition setZone :: "runtime \<Rightarrow> DateTime \<Rightarrow> string \<Rightarrow> DateTime" where
  "setZone rt dt tz =
     (case zoneOffset rt tz of
        Some d \<Rightarrow> \<lparr>date = date dt, zoneName = Some tz\<rparr>
      | None \<Rightarrow> dt)"

definition valueOf :: "DateTime \<Rightarrow> int" where
  "valueOf dt = date dt"

text \<open>\<^verbatim>\<open>diff(dt1, dt2, "minutes").minutes\<close>.\<close>

definition diff :: "DateTime \<Rightarrow> DateTime \<Rightarrow> real" where
  "diff dt1 dt2 = real_of_int (date dt1 - date dt2) / (1000 * 60)"

definition plus_dt :: "runtime \<Rightarrow> DateTime \<Rightarrow> DurationLike \<Rightarrow> DateTime" where
  "plus_dt rt dt duration =
     (let d0 = date dt;
          d1 = (if truthyNum (minutes duration)
                then Date_setMinutes rt d0
                       (real_of_int (Date_getMinutes rt d0) + the (minutes duration))
                else d0);
          d2 = (if truthyNum (hours duration)
                then Date_setHours rt d1
                       (real_of_int (Date_getHours rt d1) + the (hours duration))
                else d1);
          d3 = (if truthyNum (days duration)
                then Date_setDate rt d2
                       (real_of_int (Date_getDate rt d2) + the (days duration))
                else d2)
      in \<lparr>date = d3, zoneName = zoneName dt\<rparr>)"

definition negated :: "real option \<Rightarrow> real option" where
  "negated x = (if truthyNum x then Some (- the x) else None)"

definition minus_dt :: "runtime \<Rightarrow> DateTime \<Rightarrow> DurationLike \<Rightarrow> DateTime" where
  "minus_dt rt dt duration =
     plus_dt rt dt
       \<lparr>minutes = negated (minutes duration),
        hours = negated (hours duration),
        days = negated (days duration)\<rparr>"

definition startOf :: "runtime \<Rightarrow> DateTime \<Rightarrow> DateTime" where
  "startOf rt dt = \<lparr>date = Date_setHours0 rt (date dt), zoneName = zoneName dt\<rparr>"

text \<open>\<^verbatim>\<open>set(dt, {hour: h})\<close>; the monitor never passes a minute.\<close>

definition set_dt :: "runtime \<Rightarrow> DateTime \<Rightarrow> int \<Rightarrow> DateTime" where
  "set_dt rt dt h =
     \<lparr>date = Date_setHours rt (date dt) (real_of_int h), zoneName = zoneName dt\<rparr>"

text \<open>
  \<^verbatim>\<open>getHour\<close> and \<^verbatim>\<open>getMinute\<close> read the wall clock of the zone the value carries, through
  \<^verbatim>\<open>Intl.DateTimeFormat\<close> (which throws on an unknown zone), and the local clock when the
  value carries no zone.
\<close>

definition getHour :: "runtime \<Rightarrow> DateTime \<Rightarrow> error + int" where
  "getHour rt dt =
     (if truthyStr (zoneName dt) then
        (case zoneOffset rt (the (zoneName dt)) of
           None \<Rightarrow> Inl (RangeError (the (zoneName dt)))
         | Some d \<Rightarrow> Inr (((date dt + d (date dt)) div msPerHour) mod 24))
      else Inr (Date_getHours rt (date dt)))"

definition getMinute :: "runtime \<Rightarrow> DateTime \<Rightarrow> error + int" where
  "getMinute rt dt =
     (if truthyStr (zoneName dt) then
        (case zoneOffset rt (the (zoneName dt)) of
           None \<Rightarrow> Inl (RangeError (the (zoneName dt)))
         | Some d \<Rightarrow> Inr (((date dt + d (date dt)) div msPerMinute) mod 60))
      else Inr (Date_getMinutes rt (date dt)))"

definition getZoneName :: "DateTime \<Rightarrow> string option" where
  "getZoneName dt = zoneName dt"

section \<open>Usage blocks (\<^verbatim>\<open>types.ts\<close>)\<close>

text \<open>
  Every field of a block is optional. A token count is a count: a natural number.
\<close>

record CcusageBlock =
  startTime :: "string option"
  actualEndTime :: "string option"
  totalTokens :: "nat option"
  isActive :: "bool option"
  isGap :: "bool option"

text \<open>\<^verbatim>\<open>block.totalTokens || 0\<close>\<close>

definition tokensOf :: "CcusageBlock \<Rightarrow> nat" where
  "tokensOf block = (case totalTokens block of None \<Rightarrow> 0 | Some n \<Rightarrow> n)"

section \<open>The burn rate (\<^verbatim>\<open>calculateHourlyBurnRate\<close>)\<close>

text \<open>The end of a session that is not a gap: the branch on \<^verbatim>\<open>block.isActive\<close>.\<close>

definition sessionActualEndOf ::
  "runtime \<Rightarrow> DateTime \<Rightarrow> CcusageBlock \<Rightarrow> error + DateTime" where
  "sessionActualEndOf rt currentTime block =
     (if truthyFlag (isActive block) then Inr currentTime
      else if truthyStr (actualEndTime block)
           then fromISO rt (the (actualEndTime block))
           else Inr currentTime)"

text \<open>
  One pass of the loop body: the tokens the block adds to the running total (\<open>0\<close> where
  the body leaves with \<^verbatim>\<open>continue\<close>), or the error \<^verbatim>\<open>fromISO\<close> throws.
\<close>

definition tokensInHourOf ::
  "runtime \<Rightarrow> DateTime \<Rightarrow> DateTime \<Rightarrow> CcusageBlock \<Rightarrow> error + real" where
  "tokensInHourOf rt currentTime oneHourAgo block =
     (if \<not> truthyStr (startTime block) then Inr 0
      else
        (case fromISO rt (the (startTime block)) of
           Inl e \<Rightarrow> Inl e
         | Inr startT \<Rightarrow>
             if truthyFlag (isGap block) then Inr 0
             else
               (case sessionActualEndOf rt currentTime block of
                  Inl e \<Rightarrow> Inl e
                | Inr sessionActualEnd \<Rightarrow>
                    if valueOf sessionActualEnd < valueOf oneHourAgo then Inr 0
                    else
                      (let sessionStartInHour =
                             (if valueOf startT > valueOf oneHourAgo then startT else oneHourAgo);
                           sessionEndInHour =
                             (if valueOf sessionActualEnd < valueOf currentTime
                              then sessionActualEnd else currentTime)
                       in if valueOf sessionEndInHour \<le> valueOf sessionStartInHour then Inr 0
                          else
                            (let totalSessionDuration = diff sessionActualEnd startT;
                                 hourDuration = diff sessionEndInHour sessionStartInHour
                             in if totalSessionDuration > 0 \<and> hourDuration > 0
                                then Inr (real (tokensOf block)
                                            * (hourDuration / totalSessionDuration))
                                else Inr 0)))))"

fun burnLoop ::
  "runtime \<Rightarrow> DateTime \<Rightarrow> DateTime \<Rightarrow> CcusageBlock list \<Rightarrow> real \<Rightarrow> error + real" where
  "burnLoop rt currentTime oneHourAgo [] tokenSum = Inr tokenSum"
| "burnLoop rt currentTime oneHourAgo (block # blocks) tokenSum =
     (case tokensInHourOf rt currentTime oneHourAgo block of
        Inl e \<Rightarrow> Inl e
      | Inr tokensInHour \<Rightarrow> burnLoop rt currentTime oneHourAgo blocks (tokenSum + tokensInHour))"

definition calculateHourlyBurnRate ::
  "runtime \<Rightarrow> CcusageBlock list \<Rightarrow> DateTime \<Rightarrow> error + real" where
  "calculateHourlyBurnRate rt blocks currentTime =
     (if blocks = [] then Inr 0
      else
        (let oneHourAgo = minus_dt rt currentTime (noDuration\<lparr>hours := Some 1\<rparr>)
         in case burnLoop rt currentTime oneHourAgo blocks 0 of
              Inl e \<Rightarrow> Inl e
            | Inr tokenSum \<Rightarrow> Inr (if tokenSum > 0 then tokenSum / 60 else 0)))"

section \<open>The reset schedule (\<^verbatim>\<open>getNextResetTime\<close>)\<close>

definition resetHoursOf :: "int option \<Rightarrow> int list" where
  "resetHoursOf customResetHour =
     (case customResetHour of Some h \<Rightarrow> [h] | None \<Rightarrow> [4, 9, 14, 18, 23])"

text \<open>The \<^verbatim>\<open>for\<close> loop over \<^verbatim>\<open>resetHours\<close>, left with \<^verbatim>\<open>break\<close> at the first hit.\<close>

fun findResetHour :: "int \<Rightarrow> int \<Rightarrow> int list \<Rightarrow> int option" where
  "findResetHour currentHour currentMinute [] = None"
| "findResetHour currentHour currentMinute (hour # rest) =
     (if currentHour < hour \<or> (currentHour = hour \<and> currentMinute = 0)
      then Some hour
      else findResetHour currentHour currentMinute rest)"

text \<open>
  The projection of the current time into the zone asked for. The source wraps the call of
  \<^verbatim>\<open>setZone\<close> in \<^verbatim>\<open>try\<close> and projects into \<^verbatim>\<open>"UTC"\<close> in the handler; the call is
  written here as a result that is always \<open>Inr\<close>, since \<^verbatim>\<open>setZone\<close> never throws.
\<close>

definition targetTimeOf :: "runtime \<Rightarrow> DateTime \<Rightarrow> string option \<Rightarrow> DateTime" where
  "targetTimeOf rt currentTime timezoneStr =
     (let tz = (if truthyStr timezoneStr then the timezoneStr else hostZone rt);
          attempt = (Inr (setZone rt currentTime tz) :: error + DateTime)
      in case attempt of
           Inr targetTime \<Rightarrow> targetTime
         | Inl e \<Rightarrow> setZone rt currentTime ''UTC'')"

definition getNextResetTime ::
  "runtime \<Rightarrow> DateTime \<Rightarrow> int option \<Rightarrow> string option \<Rightarrow> error + DateTime" where
  "getNextResetTime rt currentTime customResetHour timezoneStr =
     (let targetTime = targetTimeOf rt currentTime timezoneStr;
          resetHours = resetHoursOf customResetHour
      in case getHour rt targetTime of
           Inl e \<Rightarrow> Inl e
         | Inr currentHour \<Rightarrow>
             (case getMinute rt targetTime of
                Inl e \<Rightarrow> Inl e
              | Inr currentMinute \<Rightarrow>
                  (let nextReset =
                         (case findResetHour currentHour currentMinute resetHours of
                            None \<Rightarrow>
                              set_dt rt
                                (startOf rt
                                   (plus_dt rt targetTime (noDuration\<lparr>days := Some 1\<rparr>)))
                                (hd resetHours)
                          | Some nextResetHour \<Rightarrow>
                              set_dt rt (startOf rt targetTime) nextResetHour);
                       currentZone = getZoneName currentTime;
                       targetZone = getZoneName targetTime
                   in Inr (if truthyStr currentZone \<and> currentZone \<noteq> targetZone
                           then setZone rt nextReset (the currentZone)
                           else nextReset))))"

section \<open>The token limit (\<^verbatim>\<open>getTokenLimit\<close>)\<close>

fun maxTokensLoop :: "CcusageBlock list \<Rightarrow> nat \<Rightarrow> nat" where
  "maxTokensLoop [] maxTokens = maxTokens"
| "maxTokensLoop (block # blocks) maxTokens =
     maxTokensLoop blocks
       (if \<not> truthyFlag (isGap block) \<and> \<not> truthyFlag (isActive block)
        then (if tokensOf block > maxTokens then tokensOf block else maxTokens)
        else maxTokens)"

text \<open>
  What \<^verbatim>\<open>getTokenLimit\<close> can return at run time: a number, or, since the plan is a
  string and \<^verbatim>\<open>limits\<close> an object literal, the member of \<^verbatim>\<open>Object.prototype\<close> that
  \<^verbatim>\<open>limits[plan]\<close> finds under a name every object inherits (a function or an object).
\<close>

datatype limitValue = Limit nat | InheritedMember string

definition limits :: "(string \<times> nat) list" where
  "limits = [(''pro'', 7000), (''max5'', 35000), (''max20'', 140000), (''custom_max'', 7000)]"

text \<open>The names of the members of \<^verbatim>\<open>Object.prototype\<close>; each member is truthy.\<close>

definition objectPrototypeNames :: "string list" where
  "objectPrototypeNames =
     [''constructor'', ''__defineGetter__'', ''__defineSetter__'', ''hasOwnProperty'',
      ''__lookupGetter__'', ''__lookupSetter__'', ''isPrototypeOf'',
      ''propertyIsEnumerable'', ''toString'', ''valueOf'', ''__proto__'',
      ''toLocaleString'']"

text \<open>\<^verbatim>\<open>limits[plan]\<close>: the own keys of the table first, then the inherited names.\<close>

definition limitsLookup :: "string \<Rightarrow> limitValue option" where
  "limitsLookup planType =
     (case map_of limits planType of
        Some n \<Rightarrow> Some (Limit n)
      | None \<Rightarrow>
          if planType \<in> set objectPrototypeNames then Some (InheritedMember planType)
          else None)"

fun truthyLimit :: "limitValue \<Rightarrow> bool" where
  "truthyLimit (Limit n) = (n \<noteq> 0)"
| "truthyLimit (InheritedMember name) = True"

definition getTokenLimit :: "string \<Rightarrow> CcusageBlock list option \<Rightarrow> limitValue" where
  "getTokenLimit planType blocks =
     (if planType = ''custom_max'' \<and> blocks \<noteq> None then
        (let maxTokens = maxTokensLoop (the blocks) 0
         in Limit (if maxTokens > 0 then maxTokens else 7000))
      else
        (case limitsLookup planType of
           Some v \<Rightarrow> if truthyLimit v then v else Limit 7000
         | None \<Rightarrow> Limit 7000))"

section \<open>The monitor loop (\<^verbatim>\<open>main\<close> of \<^verbatim>\<open>mod.ts\<close>)\<close>

record MonitorOptions =
  plan :: string
  resetHour :: "int option"
  timezone :: string

text \<open>
  \<^verbatim>\<open>validateArgs\<close> ends the process unless the plan is one of the four; the loop runs
  only with options that pass.
\<close>

definition validateArgs :: "MonitorOptions \<Rightarrow> bool" where
  "validateArgs opts = (plan opts \<in> set [''pro'', ''max5'', ''max20'', ''custom_max''])"

text \<open>The token limit before the first tick.\<close>

definition initialTokenLimit ::
  "MonitorOptions \<Rightarrow> CcusageBlock list option \<Rightarrow> limitValue" where
  "initialTokenLimit opts initialData =
     (if plan opts = ''custom_max'' then
        (case initialData of
           Some blocks \<Rightarrow> getTokenLimit (plan opts) (Some blocks)
         | None \<Rightarrow> getTokenLimit ''pro'' None)
      else getTokenLimit (plan opts) None)"

text \<open>
  What one pass of the loop reads from outside: the blocks \<^verbatim>\<open>runCcusage\<close> delivers
  (\<open>None\<close> when \<^verbatim>\<open>data?.blocks\<close> is missing) and the two readings of the clock.
\<close>

record tickInput =
  fetched :: "CcusageBlock list option"
  clock1 :: int
  clock2 :: int

text \<open>The values one pass computes and prints.\<close>

record Snapshot =
  tokensUsed :: nat
  tokenLimitNow :: nat
  usagePercentage :: real
  tokensLeft :: int
  elapsedMinutes :: real
  currentTimeNow :: DateTime
  burnRate :: real
  resetTime :: DateTime
  predictedEndTime :: DateTime
  showSwitchNotification :: bool
  showExceedNotification :: bool
  runsOutBeforeReset :: bool

datatype tickOutcome = NoData | NoActiveSession | Rendered Snapshot | Thrown error

text \<open>
  The auto-switch to \<^verbatim>\<open>custom_max\<close>: the only assignment to \<^verbatim>\<open>tokenLimit\<close> in the
  loop. \<^verbatim>\<open>getTokenLimit("custom_max", data.blocks)\<close> is a number; against anything else
  the comparison \<^verbatim>\<open>newLimit > tokenLimit\<close> would be false.
\<close>

definition switchedLimit :: "MonitorOptions \<Rightarrow> nat \<Rightarrow> nat \<Rightarrow> CcusageBlock list \<Rightarrow> nat" where
  "switchedLimit opts tokenLimit used blocks =
     (if used > tokenLimit \<and> plan opts = ''pro'' then
        (case getTokenLimit ''custom_max'' (Some blocks) of
           Limit newLimit \<Rightarrow> if newLimit > tokenLimit then newLimit else tokenLimit
         | InheritedMember name \<Rightarrow> tokenLimit)
      else tokenLimit)"

definition currentTimeAndElapsed ::
  "runtime \<Rightarrow> CcusageBlock \<Rightarrow> int \<Rightarrow> int \<Rightarrow> error + (DateTime \<times> real)" where
  "currentTimeAndElapsed rt activeBlock c1 c2 =
     (if truthyStr (startTime activeBlock) then
        (case fromISO rt (the (startTime activeBlock)) of
           Inl e \<Rightarrow> Inl e
         | Inr startT \<Rightarrow>
             (let currentTime =
                    (if truthyStr (getZoneName startT)
                     then setZone rt (now rt c2) (the (getZoneName startT))
                     else now rt c1)
              in Inr (currentTime, diff currentTime startT)))
      else Inr (now rt c1, 0))"

definition predictedEndTimeOf ::
  "runtime \<Rightarrow> DateTime \<Rightarrow> real \<Rightarrow> int \<Rightarrow> DateTime \<Rightarrow> DateTime" where
  "predictedEndTimeOf rt currentTime rate left reset =
     (if rate > 0 \<and> left > 0 then
        (let minutesToDepletion = real_of_int left / rate
         in plus_dt rt currentTime (noDuration\<lparr>minutes := Some minutesToDepletion\<rparr>))
      else reset)"

text \<open>
  The body of the loop after the limit is settled. The printing between the computation
  and the flags is left out.
\<close>

definition snapshotOf ::
  "runtime \<Rightarrow> MonitorOptions \<Rightarrow> nat \<Rightarrow> CcusageBlock list \<Rightarrow> CcusageBlock \<Rightarrow> int \<Rightarrow> int
     \<Rightarrow> error + Snapshot" where
  "snapshotOf rt opts tokenLimit blocks activeBlock c1 c2 =
     (let used = tokensOf activeBlock;
          percentage = (if tokenLimit > 0 then real used / real tokenLimit * 100 else 0);
          left = int tokenLimit - int used
      in case currentTimeAndElapsed rt activeBlock c1 c2 of
           Inl e \<Rightarrow> Inl e
         | Inr (currentTime, elapsed) \<Rightarrow>
             (case calculateHourlyBurnRate rt blocks currentTime of
                Inl e \<Rightarrow> Inl e
              | Inr rate \<Rightarrow>
                  (case getNextResetTime rt currentTime (resetHour opts)
                          (Some (timezone opts)) of
                     Inl e \<Rightarrow> Inl e
                   | Inr reset \<Rightarrow>
                       (let predicted = predictedEndTimeOf rt currentTime rate left reset
                        in Inr \<lparr>tokensUsed = used,
                                tokenLimitNow = tokenLimit,
                                usagePercentage = percentage,
                                tokensLeft = left,
                                elapsedMinutes = elapsed,
                                currentTimeNow = currentTime,
                                burnRate = rate,
                                resetTime = reset,
                                predictedEndTime = predicted,
                                showSwitchNotification =
                                  (used > 7000 \<and> plan opts = ''pro'' \<and> tokenLimit > 7000),
                                showExceedNotification = (used > tokenLimit),
                                runsOutBeforeReset =
                                  (valueOf predicted < valueOf reset)\<rparr>))))"

text \<open>
  One pass of the loop: the token limit it leaves in the variable, and what it showed.
  A pass that throws ends the process.
\<close>

definition tick ::
  "runtime \<Rightarrow> MonitorOptions \<Rightarrow> nat \<Rightarrow> tickInput \<Rightarrow> nat \<times> tickOutcome" where
  "tick rt opts tokenLimit inp =
     (case fetched inp of
        None \<Rightarrow> (tokenLimit, NoData)
      | Some blocks \<Rightarrow>
          (case find (\<lambda>block. truthyFlag (isActive block)) blocks of
             None \<Rightarrow> (tokenLimit, NoActiveSession)
           | Some activeBlock \<Rightarrow>
               (let newLimit = switchedLimit opts tokenLimit (tokensOf activeBlock) blocks
                in (newLimit,
                    case snapshotOf rt opts newLimit blocks activeBlock
                           (clock1 inp) (clock2 inp) of
                      Inl e \<Rightarrow> Thrown e
                    | Inr s \<Rightarrow> Rendered s))))"

fun monitorLoop ::
  "runtime \<Rightarrow> MonitorOptions \<Rightarrow> nat \<Rightarrow> tickInput list \<Rightarrow> (nat \<times> tickOutcome) list" where
  "monitorLoop rt opts tokenLimit [] = []"
| "monitorLoop rt opts tokenLimit (inp # inps) =
     (let r = tick rt opts tokenLimit inp
      in r # (case snd r of
                Thrown e \<Rightarrow> []
              | _ \<Rightarrow> monitorLoop rt opts (fst r) inps))"

fun renderedSnapshot :: "tickOutcome \<Rightarrow> Snapshot option" where
  "renderedSnapshot (Rendered s) = Some s"
| "renderedSnapshot _ = None"

section \<open>The proration the specification describes\<close>






text \<open>
  The time stamps of a block that \<^verbatim>\<open>calculateHourlyBurnRate\<close> hands to \<^verbatim>\<open>fromISO\<close> all
  parse: the start time when it is a non-empty string, and the actual end time when the
  block is neither a gap nor active and the field is a non-empty string.
\<close>

definition timestampsParse :: "runtime \<Rightarrow> CcusageBlock \<Rightarrow> bool" where
  "timestampsParse rt b =
     (if truthyStr (startTime b) then
        parseDate rt (the (startTime b)) \<noteq> None \<and>
        (if \<not> truthyFlag (isGap b) \<and> \<not> truthyFlag (isActive b) \<and> truthyStr (actualEndTime b)
         then parseDate rt (the (actualEndTime b)) \<noteq> None
         else True)
      else True)"

section \<open>Three concrete hosts\<close>

text \<open>
  A host whose clock is UTC, a host in Tokyo, nine hours ahead, and a host in New York
  around 2024-03-10, when its clock goes from 02:00 (five hours behind UTC) straight to
  03:00 (four hours behind) at 07:00 UTC; a reading between 02:00 and 03:00 of that day,
  which the clock skips, denotes the instant the earlier offset gives it, as ECMAScript
  has it. The zone database has the three zones; the date parser knows the listed
  ISO-8601 strings (with the instants ECMAScript assigns them) and rejects every other
  string.
\<close>

definition newYorkOffsetAt :: "int \<Rightarrow> int" where
  "newYorkOffsetAt t = (if t < 1710054000000 then - 18000000 else - 14400000)"


definition zoneTable :: "(string \<times> (int \<Rightarrow> int)) list" where
  "zoneTable =
     [(''UTC'', \<lambda>t. 0), (''Asia/Tokyo'', \<lambda>t. 32400000),
      (''America/New_York'', newYorkOffsetAt)]"

definition isoTable :: "(string \<times> int) list" where
  "isoTable =
     [(''2024-01-01T00:00:00Z'', 1704067200000),
      (''2024-01-01T03:00:00Z'', 1704078000000),
      (''2024-01-01T03:30:00Z'', 1704079800000),
      (''2024-01-01T12:00:00Z'', 1704110400000),
      (''2024-03-10T07:00:00Z'', 1710054000000)]"

definition utcHost :: runtime where
  "utcHost = \<lparr>hostZone = ''UTC'', hostOffsetAt = (\<lambda>t. 0), hostUTC = (\<lambda>l. l),
              zoneOffset = map_of zoneTable, parseDate = map_of isoTable\<rparr>"

definition tokyoHost :: runtime where
  "tokyoHost = \<lparr>hostZone = ''Asia/Tokyo'', hostOffsetAt = (\<lambda>t. 32400000),
                hostUTC = (\<lambda>l. l - 32400000),
                zoneOffset = map_of zoneTable, parseDate = map_of isoTable\<rparr>"


definition aBlock ::
  "string option \<Rightarrow> string option \<Rightarrow> nat \<Rightarrow> bool \<Rightarrow> bool \<Rightarrow> CcusageBlock" where
  "aBlock start ending tokens active gap =
     \<lparr>startTime = start, actualEndTime = ending, totalTokens = Some tokens,
      isActive = Some active, isGap = Some gap\<rparr>"

section \<open>Notions the properties are stated with\<close>

text \<open>
  The reading of the host's clock one hour before its present reading denotes the
  instant 60 minutes before now. It does at every instant on a host whose zone keeps one
  offset; it does not within the hour after the offset of the zone has changed.
\<close>

definition hourBackIs60Minutes :: "runtime \<Rightarrow> int \<Rightarrow> bool" where
  "hourBackIs60Minutes rt t = (hostUTC rt (localTime rt t - msPerHour) = t - 60 * msPerMinute)"

text \<open>A host whose local clock is always \<open>d\<close> milliseconds ahead of UTC.\<close>

definition fixedOffsetHost :: "runtime \<Rightarrow> int \<Rightarrow> bool" where
  "fixedOffsetHost rt d = (hostOffsetAt rt = (\<lambda>t. d) \<and> hostUTC rt = (\<lambda>l. l - d))"

text \<open>The completed sessions of a list: the blocks that are neither a gap nor active.\<close>

definition completedBlocks :: "CcusageBlock list \<Rightarrow> CcusageBlock list" where
  "completedBlocks blocks =
     filter (\<lambda>b. \<not> truthyFlag (isGap b) \<and> \<not> truthyFlag (isActive b)) blocks"

text \<open>
  The test of the schedule as the specification words it: hour \<open>h\<close> of the schedule
  qualifies at the projected hour \<open>H\<close> and minute \<open>M\<close>.
\<close>

definition qualifies :: "int \<Rightarrow> int \<Rightarrow> int \<Rightarrow> bool" where
  "qualifies H M h = (H < h \<or> (H = h \<and> M = 0))"

text \<open>
  Readings of the host's local clock: the number of the local calendar day of an instant,
  and the local time that reads hour \<open>h\<close>, minute 0, second 0 of local day \<open>d\<close>.
\<close>

definition localDay :: "runtime \<Rightarrow> int \<Rightarrow> int" where
  "localDay rt t = localTime rt t div msPerDay"

definition hourOfLocalDay :: "int \<Rightarrow> int \<Rightarrow> int" where
  "hourOfLocalDay d h = d * msPerDay + h * msPerHour"

text \<open>An instant at the granularity of minutes.\<close>

definition minuteOf :: "int \<Rightarrow> int" where
  "minuteOf t = t div msPerMinute"

text \<open>The local time of the instant \<^verbatim>\<open>getNextResetTime\<close> returns; \<open>None\<close> when it throws.\<close>

definition nextResetLocal ::
  "runtime \<Rightarrow> DateTime \<Rightarrow> int option \<Rightarrow> string option \<Rightarrow> int option" where
  "nextResetLocal rt currentTime customResetHour timezoneStr =
     (case getNextResetTime rt currentTime customResetHour timezoneStr of
        Inl e \<Rightarrow> None
      | Inr r \<Rightarrow> Some (localTime rt (date r)))"

text \<open>The token limit in the variable before the first pass and after each pass of a run.\<close>

definition limitsOfRun ::
  "runtime \<Rightarrow> MonitorOptions \<Rightarrow> nat \<Rightarrow> tickInput list \<Rightarrow> nat list" where
  "limitsOfRun rt opts tokenLimit inps =
     tokenLimit # map fst (monitorLoop rt opts tokenLimit inps)"

text \<open>
  The instant of exhaustion as the specification words it, in milliseconds: now plus
  \<open>tokensLeft / burnRate\<close> minutes.
\<close>

definition exhaustionClaimed :: "int \<Rightarrow> int \<Rightarrow> real \<Rightarrow> real" where
  "exhaustionClaimed nowMs left rate = real_of_int nowMs + (real_of_int left / rate) * 60000"

text \<open>The options of a run on plan \<^verbatim>\<open>pro\<close>, and the input of a pass at one clock reading.\<close>

definition proOptions :: MonitorOptions where
  "proOptions = \<lparr>plan = ''pro'', resetHour = None, timezone = ''UTC''\<rparr>"

definition tickAt :: "int \<Rightarrow> CcusageBlock list \<Rightarrow> tickInput" where
  "tickAt clock blocks = \<lparr>fetched = Some blocks, clock1 = clock, clock2 = clock\<rparr>"

section \<open>Arithmetic of the date setters\<close>

lemma toInteger_of_int: "toInteger (real_of_int n) = n"
  by (simp add: toInteger_def)

lemma hour_split:
  "(L div 86400000) * 86400000 + ((L div 3600000) mod 24) * 3600000 + L mod 3600000 = (L::int)"
proof -
  have "L div 86400000 = (L div 3600000) div 24"
    using zdiv_zmult2_eq [of 24 L 3600000] by simp
  then show ?thesis
    using div_mult_mod_eq [of "L div 3600000" 24] div_mult_mod_eq [of L 3600000] by linarith
qed

lemma minute_split:
  "(L div 3600000) * 3600000 + ((L div 60000) mod 60) * 60000 + L mod 60000 = (L::int)"
proof -
  have "L div 3600000 = (L div 60000) div 60"
    using zdiv_zmult2_eq [of 60 L 60000] by simp
  then show ?thesis
    using div_mult_mod_eq [of "L div 60000" 60] div_mult_mod_eq [of L 60000] by linarith
qed

text \<open>
  \<^verbatim>\<open>d.setHours(d.getHours() + k)\<close> moves the reading of the local clock by \<open>k\<close> hours.
\<close>

lemma Date_setHours_shift:
  "Date_setHours rt t (real_of_int (Date_getHours rt t) + real_of_int k)
     = hostUTC rt (localTime rt t + k * msPerHour)"
proof -
  have "real_of_int (Date_getHours rt t) + real_of_int k = real_of_int (Date_getHours rt t + k)"
    by simp
  then have "Date_setHours rt t (real_of_int (Date_getHours rt t) + real_of_int k)
      = hostUTC rt ((localTime rt t div msPerDay) * msPerDay
          + (Date_getHours rt t + k) * msPerHour + (localTime rt t mod msPerHour))"
    unfolding Date_setHours_def by (simp only: toInteger_of_int)
  also have "(localTime rt t div msPerDay) * msPerDay
          + (Date_getHours rt t + k) * msPerHour + (localTime rt t mod msPerHour)
        = localTime rt t + k * msPerHour"
    using hour_split [of "localTime rt t"]
    by (simp add: Date_getHours_def msPerDay_def msPerHour_def algebra_simps)
  finally show ?thesis .
qed

text \<open>
  \<^verbatim>\<open>d.setMinutes(d.getMinutes() + x)\<close> moves the reading of the local clock by the whole
  minutes of \<open>x\<close>: the setter drops the fraction.
\<close>

lemma Date_setMinutes_shift:
  assumes "0 \<le> x"
  shows "Date_setMinutes rt t (real_of_int (Date_getMinutes rt t) + x)
           = hostUTC rt (localTime rt t + \<lfloor>x\<rfloor> * msPerMinute)"
proof -
  have "0 \<le> Date_getMinutes rt t"
    by (simp add: Date_getMinutes_def)
  then have "toInteger (real_of_int (Date_getMinutes rt t) + x)
               = Date_getMinutes rt t + \<lfloor>x\<rfloor>"
    using assms by (simp add: toInteger_def)
  then have "Date_setMinutes rt t (real_of_int (Date_getMinutes rt t) + x)
      = hostUTC rt ((localTime rt t div msPerHour) * msPerHour
         + (Date_getMinutes rt t + \<lfloor>x\<rfloor>) * msPerMinute
         + (localTime rt t mod msPerMinute))"
    unfolding Date_setMinutes_def by simp
  also have "(localTime rt t div msPerHour) * msPerHour
         + (Date_getMinutes rt t + \<lfloor>x\<rfloor>) * msPerMinute
         + (localTime rt t mod msPerMinute)
        = localTime rt t + \<lfloor>x\<rfloor> * msPerMinute"
    using minute_split [of "localTime rt t"]
    by (simp add: Date_getMinutes_def msPerMinute_def msPerHour_def algebra_simps)
  finally show ?thesis .
qed

text \<open>\<^verbatim>\<open>d.setDate(d.getDate() + 1)\<close> moves the reading of the local clock by one day.\<close>

lemma Date_setDate_next:
  "Date_setDate rt t (real_of_int (Date_getDate rt t) + 1)
     = hostUTC rt (localTime rt t + msPerDay)"
proof -
  have "real_of_int (Date_getDate rt t) + 1 = real_of_int (Date_getDate rt t + 1)"
    by simp
  then have "toInteger (real_of_int (Date_getDate rt t) + 1) = Date_getDate rt t + 1"
    by (simp only: toInteger_of_int)
  then have "Date_setDate rt t (real_of_int (Date_getDate rt t) + 1)
      = hostUTC rt ((localTime rt t div msPerDay + 1) * msPerDay + localTime rt t mod msPerDay)"
    by (simp add: Date_setDate_def)
  also have "(localTime rt t div msPerDay + 1) * msPerDay + localTime rt t mod msPerDay
               = localTime rt t + msPerDay"
    using div_mult_mod_eq [of "localTime rt t" msPerDay] by (simp add: algebra_simps)
  finally show ?thesis .
qed

text \<open>
  One hour ago, as \<^verbatim>\<open>minus(currentTime, {hours: 1})\<close> computes it on any host: the
  instant the host's clock denotes by its present reading less one hour.
\<close>

lemma minus_one_hour_on_clock:
  "minus_dt rt dt (noDuration\<lparr>hours := Some 1\<rparr>)
     = \<lparr>date = hostUTC rt (localTime rt (date dt) - msPerHour), zoneName = zoneName dt\<rparr>"
  using Date_setHours_shift [of rt "date dt" "-1"]
  by (simp add: minus_dt_def plus_dt_def noDuration_def negated_def)

lemma minus_one_hour:
  assumes "hourBackIs60Minutes rt (date dt)"
  shows "minus_dt rt dt (noDuration\<lparr>hours := Some 1\<rparr>)
           = \<lparr>date = date dt - msPerHour, zoneName = zoneName dt\<rparr>"
  using assms
  by (simp add: minus_one_hour_on_clock hourBackIs60Minutes_def msPerHour_def msPerMinute_def)

text \<open>On a host at a fixed offset.\<close>

lemma fixed_localTime: "fixedOffsetHost rt d \<Longrightarrow> localTime rt t = t + d"
  by (simp add: fixedOffsetHost_def localTime_def)

lemma fixed_hostUTC: "fixedOffsetHost rt d \<Longrightarrow> hostUTC rt l = l - d"
  by (simp add: fixedOffsetHost_def)

lemma fixed_hourBack: "fixedOffsetHost rt d \<Longrightarrow> hourBackIs60Minutes rt t"
  by (simp add: hourBackIs60Minutes_def fixed_localTime fixed_hostUTC msPerHour_def
      msPerMinute_def)

lemma utcHost_fixed: "fixedOffsetHost utcHost 0"
  by (simp add: fixedOffsetHost_def utcHost_def)

lemma tokyoHost_fixed: "fixedOffsetHost tokyoHost 32400000"
  by (simp add: fixedOffsetHost_def tokyoHost_def)

lemma plus_one_day:
  assumes "fixedOffsetHost rt d"
  shows "plus_dt rt dt (noDuration\<lparr>days := Some 1\<rparr>)
           = \<lparr>date = date dt + msPerDay, zoneName = zoneName dt\<rparr>"
  using Date_setDate_next [of rt "date dt"]
  by (simp add: plus_dt_def noDuration_def fixed_localTime [OF assms] fixed_hostUTC [OF assms])

lemma plus_minutes:
  assumes "0 < x" and "fixedOffsetHost rt d"
  shows "plus_dt rt dt (noDuration\<lparr>minutes := Some x\<rparr>)
           = \<lparr>date = date dt + \<lfloor>x\<rfloor> * msPerMinute, zoneName = zoneName dt\<rparr>"
  using assms(1) Date_setMinutes_shift [of x rt "date dt"]
  by (simp add: plus_dt_def noDuration_def fixed_localTime [OF assms(2)]
      fixed_hostUTC [OF assms(2)])

lemma local_day_of_midnight:
  assumes "fixedOffsetHost rt d"
  shows "localTime rt (Date_setHours0 rt t) = (localTime rt t div msPerDay) * msPerDay"
  by (simp add: Date_setHours0_def fixed_localTime [OF assms] fixed_hostUTC [OF assms])

text \<open>The hour \<open>h\<close> of the local day of \<open>dt\<close>, as \<^verbatim>\<open>set(startOf(dt, "day"), {hour: h})\<close>.\<close>

lemma set_startOf:
  assumes "fixedOffsetHost rt d"
  shows "date (set_dt rt (startOf rt dt) h)
           = (localTime rt (date dt) div msPerDay) * msPerDay + h * msPerHour - d"
proof -
  have "((localTime rt (date dt) div msPerDay) * msPerDay) mod msPerHour = 0"
    by (simp add: msPerDay_def msPerHour_def)
  moreover have "((localTime rt (date dt) div msPerDay) * msPerDay) div msPerDay
                   = localTime rt (date dt) div msPerDay"
    by (simp add: msPerDay_def)
  ultimately show ?thesis
    by (simp add: set_dt_def startOf_def Date_setHours_def local_day_of_midnight [OF assms]
        toInteger_of_int fixed_hostUTC [OF assms])
qed

lemma utcHost_minus_one_hour:
  "minus_dt utcHost dt (noDuration\<lparr>hours := Some 1\<rparr>)
     = \<lparr>date = date dt - msPerHour, zoneName = zoneName dt\<rparr>"
  by (rule minus_one_hour [OF fixed_hourBack [OF utcHost_fixed]])

section \<open>The burn rate: the code against the proration\<close>





lemma burnLoop_append:
  "burnLoop rt cur oha (xs @ ys) acc
     = (case burnLoop rt cur oha xs acc of
          Inl e \<Rightarrow> Inl e
        | Inr a \<Rightarrow> burnLoop rt cur oha ys a)"
  by (induction xs arbitrary: acc) (simp_all split: sum.splits)

lemma tokensInHourOf_no_start:
  "\<not> truthyStr (startTime b) \<Longrightarrow> tokensInHourOf rt cur oha b = Inr 0"
  by (simp add: tokensInHourOf_def)

lemma tokensInHourOf_bad_start:
  "truthyStr (startTime b) \<Longrightarrow> parseDate rt (the (startTime b)) = None
     \<Longrightarrow> tokensInHourOf rt cur oha b = Inl (InvalidISO (the (startTime b)))"
  by (simp add: tokensInHourOf_def fromISO_def)

lemma burnLoop_throws:
  "b \<in> set blocks \<Longrightarrow> isl (tokensInHourOf rt cur oha b)
     \<Longrightarrow> isl (burnLoop rt cur oha blocks acc)"
  by (induction blocks arbitrary: acc) (auto split: sum.splits)

lemma burn_rate_skips_block:
  assumes "\<not> truthyStr (startTime b)"
  shows "calculateHourlyBurnRate rt (before @ b # after) currentTime
           = calculateHourlyBurnRate rt (before @ after) currentTime"
proof -
  have step: "burnLoop rt cur oha (before @ b # after) acc
                = burnLoop rt cur oha (before @ after) acc"
    for cur oha acc
    using assms by (simp add: burnLoop_append tokensInHourOf_no_start split: sum.splits)
  show ?thesis
  proof (cases "before @ after = []")
    case True
    with assms show ?thesis
      by (simp add: calculateHourlyBurnRate_def tokensInHourOf_no_start)
  next
    case False
    then show ?thesis
      by (simp add: calculateHourlyBurnRate_def step Let_def)
  qed
qed










text \<open>
  Claim C4, as the code has it. A block whose start time is absent or the empty string is
  skipped: the burn rate is what it is without the block, so the block contributes exactly
  0 and never makes the call fail. A block whose start time is a non-empty string that
  does not parse makes the call throw, whatever the other blocks are.
\<close>

theorem missing_start_skipped_unparseable_start_throws:
  "(\<not> truthyStr (startTime b) \<longrightarrow>
      calculateHourlyBurnRate rt (before @ b # after) currentTime
        = calculateHourlyBurnRate rt (before @ after) currentTime)
   \<and> (b \<in> set blocks \<and> truthyStr (startTime b) \<and> parseDate rt (the (startTime b)) = None \<longrightarrow>
      isl (calculateHourlyBurnRate rt blocks currentTime))"
proof (intro conjI impI)
  assume "\<not> truthyStr (startTime b)"
  then show "calculateHourlyBurnRate rt (before @ b # after) currentTime
        = calculateHourlyBurnRate rt (before @ after) currentTime"
    by (rule burn_rate_skips_block)
next
  assume a: "b \<in> set blocks \<and> truthyStr (startTime b) \<and> parseDate rt (the (startTime b)) = None"
  then have "isl (tokensInHourOf rt currentTime
                (minus_dt rt currentTime (noDuration\<lparr>hours := Some 1\<rparr>)) b)"
    by (simp add: tokensInHourOf_bad_start)
  with a have "isl (burnLoop rt currentTime
                (minus_dt rt currentTime (noDuration\<lparr>hours := Some 1\<rparr>)) blocks 0)"
    by (blast intro: burnLoop_throws)
  moreover from a have "blocks \<noteq> []" by auto
  ultimately show "isl (calculateHourlyBurnRate rt blocks currentTime)"
    by (auto simp: calculateHourlyBurnRate_def Let_def split: sum.splits)
qed

theorem missing_start_skipped_unparseable_start_throws_witness:
  "calculateHourlyBurnRate utcHost
     ([aBlock (Some ''2024-01-01T03:00:00Z'') None 3000 True False]
        @ aBlock None None 900 False False # [])
     (now utcHost 1704079800000) = Inr 50
   \<and> calculateHourlyBurnRate utcHost
     ([aBlock (Some ''2024-01-01T03:00:00Z'') None 3000 True False]
        @ aBlock (Some []) None 900 False False # [])
     (now utcHost 1704079800000) = Inr 50
   \<and> isl (calculateHourlyBurnRate utcHost
       [aBlock (Some ''2024-01-01T03:00:00Z'') None 3000 True False,
        aBlock (Some ''last tuesday'') None 900 False False]
       (now utcHost 1704079800000))"
proof -
  have base: "calculateHourlyBurnRate utcHost
      ([aBlock (Some ''2024-01-01T03:00:00Z'') None 3000 True False] @ [])
      (now utcHost 1704079800000) = Inr 50"
    by (simp add: calculateHourlyBurnRate_def utcHost_minus_one_hour)
       (simp add: tokensInHourOf_def fromISO_def sessionActualEndOf_def valueOf_def
        diff_def msPerHour_def tokensOf_def aBlock_def utcHost_def isoTable_def now_def)
  have absent: "\<not> truthyStr (startTime (aBlock None None 900 False False))"
    and empty: "\<not> truthyStr (startTime (aBlock (Some []) None 900 False False))"
    by (simp_all add: aBlock_def)
  have bad: "aBlock (Some ''last tuesday'') None 900 False False
        \<in> set [aBlock (Some ''2024-01-01T03:00:00Z'') None 3000 True False,
                aBlock (Some ''last tuesday'') None 900 False False]
      \<and> truthyStr (startTime (aBlock (Some ''last tuesday'') None 900 False False))
      \<and> parseDate utcHost (the (startTime (aBlock (Some ''last tuesday'') None 900 False False)))
          = None"
    by (simp add: aBlock_def utcHost_def isoTable_def)
  from missing_start_skipped_unparseable_start_throws
    [of "aBlock None None 900 False False" utcHost
        "[aBlock (Some ''2024-01-01T03:00:00Z'') None 3000 True False]" "[]"
        "now utcHost 1704079800000"] absent base
  have 1: "calculateHourlyBurnRate utcHost
     ([aBlock (Some ''2024-01-01T03:00:00Z'') None 3000 True False]
        @ aBlock None None 900 False False # [])
     (now utcHost 1704079800000) = Inr 50"
    by simp
  from missing_start_skipped_unparseable_start_throws
    [of "aBlock (Some []) None 900 False False" utcHost
        "[aBlock (Some ''2024-01-01T03:00:00Z'') None 3000 True False]" "[]"
        "now utcHost 1704079800000"] empty base
  have 2: "calculateHourlyBurnRate utcHost
     ([aBlock (Some ''2024-01-01T03:00:00Z'') None 3000 True False]
        @ aBlock (Some []) None 900 False False # [])
     (now utcHost 1704079800000) = Inr 50"
    by simp
  from missing_start_skipped_unparseable_start_throws
    [where b = "aBlock (Some ''last tuesday'') None 900 False False" and rt = utcHost
       and blocks = "[aBlock (Some ''2024-01-01T03:00:00Z'') None 3000 True False,
          aBlock (Some ''last tuesday'') None 900 False False]"
       and currentTime = "now utcHost 1704079800000"] bad
  have 3: "isl (calculateHourlyBurnRate utcHost
       [aBlock (Some ''2024-01-01T03:00:00Z'') None 3000 True False,
        aBlock (Some ''last tuesday'') None 900 False False]
       (now utcHost 1704079800000))"
    by blast
  from 1 2 3 show ?thesis by blast
qed

text \<open>
  Claim C4 as stated fails: the start time is parsed before the gap flag is looked at, so
  a gap block with an unparseable start time makes the call throw.
\<close>

theorem gap_block_unparseable_start_counterexample:
  "calculateHourlyBurnRate utcHost [aBlock (Some ''n/a'') None 0 False True]
     (now utcHost 1704079800000) = Inl (InvalidISO ''n/a'')"
  by (simp add: calculateHourlyBurnRate_def tokensInHourOf_def fromISO_def aBlock_def
      utcHost_def isoTable_def)

section \<open>The token limit by plan\<close>

lemma Max_insert_max:
  fixes a m :: nat
  assumes "finite S"
  shows "Max (insert (max a m) S) = Max (insert m (insert a S))"
proof (cases "S = {}")
  case True
  then show ?thesis by (simp add: max.commute)
next
  case False
  with assms show ?thesis
    by (simp add: max.commute max.left_commute)
qed

lemma maxTokensLoop_Max:
  "maxTokensLoop blocks m = Max (insert m (set (map tokensOf (completedBlocks blocks))))"
proof (induction blocks arbitrary: m)
  case Nil
  then show ?case by (simp add: completedBlocks_def)
next
  case (Cons b blocks)
  let ?S = "set (map tokensOf (completedBlocks blocks))"
  show ?case
  proof (cases "\<not> truthyFlag (isGap b) \<and> \<not> truthyFlag (isActive b)")
    case True
    then have c: "set (map tokensOf (completedBlocks (b # blocks))) = insert (tokensOf b) ?S"
      by (simp add: completedBlocks_def)
    from True have "maxTokensLoop (b # blocks) m = maxTokensLoop blocks (max (tokensOf b) m)"
      by (simp add: max_def)
    also have "\<dots> = Max (insert (max (tokensOf b) m) ?S)"
      by (rule Cons.IH)
    also have "\<dots> = Max (insert m (insert (tokensOf b) ?S))"
      by (rule Max_insert_max) simp
    finally show ?thesis
      by (simp only: c)
  next
    case False
    then have c: "completedBlocks (b # blocks) = completedBlocks blocks"
      by (auto simp: completedBlocks_def)
    from False have "maxTokensLoop (b # blocks) m = maxTokensLoop blocks m"
      by auto
    with Cons.IH [of m] show ?thesis
      by (simp only: c)
  qed
qed

lemma maxTokensLoop_0:
  "maxTokensLoop blocks 0 =
     (if completedBlocks blocks = [] then 0 else Max (set (map tokensOf (completedBlocks blocks))))"
proof (cases "completedBlocks blocks = []")
  case True
  then show ?thesis by (simp add: maxTokensLoop_Max)
next
  case False
  then have "set (map tokensOf (completedBlocks blocks)) \<noteq> {}" by simp
  then have "Max (insert 0 (set (map tokensOf (completedBlocks blocks))))
             = max 0 (Max (set (map tokensOf (completedBlocks blocks))))"
    by simp
  with False show ?thesis by (simp add: maxTokensLoop_Max)
qed

text \<open>
  Claim C5, as the code has it. \<^verbatim>\<open>getTokenLimit\<close> returns 7000 for plan \<^verbatim>\<open>pro\<close>, 35000
  for \<^verbatim>\<open>max5\<close> and 140000 for \<^verbatim>\<open>max20\<close>; for \<^verbatim>\<open>custom_max\<close> with blocks it returns the
  largest token count among the blocks that are neither a gap nor active (active blocks
  are left out of the scan), and 7000 when there is no such block or that maximum is 0;
  for \<^verbatim>\<open>custom_max\<close> without blocks it returns 7000; for a plan name outside the four it
  returns 7000 unless the name is one every object inherits from \<^verbatim>\<open>Object.prototype\<close>;
  for every plan name that is not such a name the result is a positive natural number, so
  a non-negative integer. For a name every object inherits the result is no number: it is
  the inherited member.
\<close>

theorem getTokenLimit_by_plan:
  "getTokenLimit ''pro'' blocks = Limit 7000
   \<and> getTokenLimit ''max5'' blocks = Limit 35000
   \<and> getTokenLimit ''max20'' blocks = Limit 140000
   \<and> getTokenLimit ''custom_max'' (Some bs) =
       Limit (if completedBlocks bs = [] \<or> Max (set (map tokensOf (completedBlocks bs))) = 0
              then 7000
              else Max (set (map tokensOf (completedBlocks bs))))
   \<and> getTokenLimit ''custom_max'' None = Limit 7000
   \<and> (p \<notin> {''pro'', ''max5'', ''max20'', ''custom_max''} \<and> p \<notin> set objectPrototypeNames \<longrightarrow>
        getTokenLimit p blocks = Limit 7000)
   \<and> (p \<notin> set objectPrototypeNames \<longrightarrow> (\<exists>n. getTokenLimit p blocks = Limit n \<and> 0 < n))
   \<and> (p \<in> set objectPrototypeNames \<longrightarrow> getTokenLimit p blocks = InheritedMember p)"
proof -
  have fixed: "getTokenLimit ''pro'' blocks = Limit 7000"
    "getTokenLimit ''max5'' blocks = Limit 35000"
    "getTokenLimit ''max20'' blocks = Limit 140000"
    "getTokenLimit ''custom_max'' None = Limit 7000"
    by (simp_all add: getTokenLimit_def limitsLookup_def limits_def)
  have custom: "getTokenLimit ''custom_max'' (Some bs) =
       Limit (if completedBlocks bs = [] \<or> Max (set (map tokensOf (completedBlocks bs))) = 0
              then 7000
              else Max (set (map tokensOf (completedBlocks bs))))"
    by (simp add: getTokenLimit_def maxTokensLoop_0)
  have unknown: "p \<notin> {''pro'', ''max5'', ''max20'', ''custom_max''}
        \<and> p \<notin> set objectPrototypeNames \<longrightarrow> getTokenLimit p blocks = Limit 7000"
    by (simp add: getTokenLimit_def limitsLookup_def limits_def)
  have pos: "p \<notin> set objectPrototypeNames \<longrightarrow> (\<exists>n. getTokenLimit p blocks = Limit n \<and> 0 < n)"
    by (auto simp: getTokenLimit_def limitsLookup_def limits_def Let_def)
  have inherited: "p \<in> set objectPrototypeNames \<longrightarrow> getTokenLimit p blocks = InheritedMember p"
    by (auto simp: getTokenLimit_def limitsLookup_def limits_def objectPrototypeNames_def)
  from fixed custom unknown pos inherited show ?thesis by blast
qed

text \<open>
  The example of the specification (a completed block of 50000 tokens and an active one of
  30000), the empty list, a list whose only completed block has no tokens, a plan name
  outside the four, and a name every object inherits.
\<close>

theorem getTokenLimit_by_plan_witness:
  "getTokenLimit ''custom_max''
     (Some [aBlock None None 50000 False False, aBlock None None 30000 True False])
     = Limit 50000
   \<and> getTokenLimit ''custom_max'' (Some []) = Limit 7000
   \<and> getTokenLimit ''custom_max''
     (Some [aBlock None None 0 False False, aBlock None None 90000 False True]) = Limit 7000
   \<and> getTokenLimit ''enterprise'' None = Limit 7000
   \<and> getTokenLimit ''pro'' None = Limit 7000 \<and> getTokenLimit ''max20'' None = Limit 140000
   \<and> getTokenLimit ''toString'' None = InheritedMember ''toString''"
proof -
  have 1: "getTokenLimit ''custom_max''
     (Some [aBlock None None 50000 False False, aBlock None None 30000 True False])
     = Limit 50000"
    using getTokenLimit_by_plan
      [of None "[aBlock None None 50000 False False, aBlock None None 30000 True False]" "''pro''"]
    by (simp add: completedBlocks_def aBlock_def tokensOf_def)
  have 2: "getTokenLimit ''custom_max'' (Some []) = Limit 7000"
    using getTokenLimit_by_plan [of None "[]" "''pro''"]
    by (simp add: completedBlocks_def)
  have 3: "getTokenLimit ''custom_max''
     (Some [aBlock None None 0 False False, aBlock None None 90000 False True]) = Limit 7000"
    using getTokenLimit_by_plan
      [of None "[aBlock None None 0 False False, aBlock None None 90000 False True]" "''pro''"]
    by (simp add: completedBlocks_def aBlock_def tokensOf_def)
  have 4: "getTokenLimit ''enterprise'' None = Limit 7000"
    using getTokenLimit_by_plan [of None "[]" "''enterprise''"]
    by (simp add: objectPrototypeNames_def)
  have 5: "getTokenLimit ''pro'' None = Limit 7000 \<and> getTokenLimit ''max20'' None = Limit 140000"
    using getTokenLimit_by_plan [of None "[]" "''pro''"] by blast
  have 6: "getTokenLimit ''toString'' None = InheritedMember ''toString''"
    using getTokenLimit_by_plan [of None "[]" "''toString''"]
    by (simp add: objectPrototypeNames_def)
  from 1 2 3 4 5 6 show ?thesis by blast
qed

text \<open>
  Claim C5 as stated, that every unknown plan value returns 7000 and the result is always
  a non-negative integer, fails at the plan value \<^verbatim>\<open>constructor\<close>: \<^verbatim>\<open>limits[plan]\<close> finds
  the constructor every object inherits, which is truthy, and the call returns it.
\<close>

theorem inherited_plan_name_counterexample:
  "getTokenLimit ''constructor'' None = InheritedMember ''constructor''"
  by (simp add: getTokenLimit_def limitsLookup_def limits_def objectPrototypeNames_def)

section \<open>The next reset\<close>

lemma findResetHour_find: "findResetHour H M hs = find (qualifies H M) hs"
  by (induction hs) (simp_all add: qualifies_def)

lemma date_setZone: "date (setZone rt dt tz) = date dt"
  by (simp add: setZone_def split: option.splits)

lemma date_targetTimeOf: "date (targetTimeOf rt currentTime tz) = date currentTime"
  by (simp add: targetTimeOf_def date_setZone)

lemma localTime_set_startOf:
  assumes "fixedOffsetHost rt d"
  shows "localTime rt (date (set_dt rt (startOf rt dt) h))
           = hourOfLocalDay (localDay rt (date dt)) h"
  by (simp add: set_startOf [OF assms] fixed_localTime [OF assms] hourOfLocalDay_def
      localDay_def)

lemma localDay_next:
  assumes "fixedOffsetHost rt d"
  shows "localDay rt (t + msPerDay) = localDay rt t + 1"
  by (simp add: localDay_def fixed_localTime [OF assms] msPerDay_def add.commute
      add.left_commute)

text \<open>What \<open>hourOfLocalDay d h\<close> reads on a clock, for an hour of the day.\<close>

lemma hourOfLocalDay_reading:
  assumes "0 \<le> h" and "h < 24"
  shows "hourOfLocalDay d h div msPerDay = d"
    and "(hourOfLocalDay d h div msPerHour) mod 24 = h"
    and "(hourOfLocalDay d h div msPerMinute) mod 60 = 0"
    and "hourOfLocalDay d h mod msPerMinute = 0"
proof -
  have a: "hourOfLocalDay d h = (d * 24 + h) * msPerHour"
    by (simp add: hourOfLocalDay_def msPerDay_def msPerHour_def algebra_simps)
  have b: "hourOfLocalDay d h = ((d * 24 + h) * 60) * msPerMinute"
    by (simp add: hourOfLocalDay_def msPerDay_def msPerHour_def msPerMinute_def algebra_simps)
  from assms have "h * msPerHour div msPerDay = 0"
    by (simp add: msPerHour_def msPerDay_def div_pos_pos_trivial)
  then show "hourOfLocalDay d h div msPerDay = d"
    by (simp add: hourOfLocalDay_def msPerDay_def)
  have "hourOfLocalDay d h div msPerHour = d * 24 + h"
    by (simp add: a msPerHour_def)
  with assms show "(hourOfLocalDay d h div msPerHour) mod 24 = h"
    by simp
  have "hourOfLocalDay d h div msPerMinute = (d * 24 + h) * 60"
    by (simp add: b msPerMinute_def)
  then show "(hourOfLocalDay d h div msPerMinute) mod 60 = 0"
    by simp
  show "hourOfLocalDay d h mod msPerMinute = 0"
    by (simp add: b msPerMinute_def)
qed

text \<open>
  On a host at a fixed offset: the loop selects the first entry \<open>h\<close> of the schedule with
  \<open>H < h\<close>, or \<open>H = h\<close> and \<open>M = 0\<close>, where \<open>H\<close> and \<open>M\<close> are the hour and minute read in
  the zone asked for, and the result reads, on the clock of the host, minute 0 of that
  hour of the host's today, or of the first entry of the schedule on the host's tomorrow.
\<close>

lemma nextResetLocal_value:
  assumes "getHour rt (targetTimeOf rt currentTime tz) = Inr H"
    and "getMinute rt (targetTimeOf rt currentTime tz) = Inr M"
    and fx: "fixedOffsetHost rt d"
  shows "nextResetLocal rt currentTime c tz =
           Some (case find (qualifies H M) (resetHoursOf c) of
                   Some h \<Rightarrow> hourOfLocalDay (localDay rt (date currentTime)) h
                 | None \<Rightarrow> hourOfLocalDay (localDay rt (date currentTime) + 1)
                              (hd (resetHoursOf c)))"
proof (cases "find (qualifies H M) (resetHoursOf c)")
  case None
  with assms(1,2) show ?thesis
    by (simp add: nextResetLocal_def getNextResetTime_def Let_def date_setZone
        localTime_set_startOf [OF fx] plus_one_day [OF fx] date_targetTimeOf
        localDay_next [OF fx] findResetHour_find)
next
  case (Some h)
  with assms(1,2) show ?thesis
    by (simp add: nextResetLocal_def getNextResetTime_def Let_def date_setZone
        localTime_set_startOf [OF fx] date_targetTimeOf findResetHour_find)
qed

lemma utc_clock:
  "getHour utcHost (targetTimeOf utcHost (now utcHost t) (Some ''UTC''))
     = Inr ((t div msPerHour) mod 24)"
  "getMinute utcHost (targetTimeOf utcHost (now utcHost t) (Some ''UTC''))
     = Inr ((t div msPerMinute) mod 60)"
  by (simp_all add: getHour_def getMinute_def targetTimeOf_def setZone_def utcHost_def
      zoneTable_def now_def)

text \<open>
  On a host in UTC asked for the zone UTC, on 2024-01-01: at 03:59 and at 04:00 the
  result is 04:00 of the day, at 23:30 it is 04:00 of the next day, with the default
  schedule; and at 03:59 with the custom hour 2, which is over for the day, it is 02:00
  of the next day.
\<close>

lemma next_reset_on_utc_host:
  "nextResetLocal utcHost (now utcHost 1704081540000) None (Some ''UTC'') = Some 1704081600000"
  "nextResetLocal utcHost (now utcHost 1704081600000) None (Some ''UTC'') = Some 1704081600000"
  "nextResetLocal utcHost (now utcHost 1704151800000) None (Some ''UTC'') = Some 1704168000000"
  "nextResetLocal utcHost (now utcHost 1704081540000) (Some 2) (Some ''UTC'')
     = Some 1704160800000"
proof -
  have d: "localDay utcHost (date (now utcHost 1704081540000)) = 19723"
    "localDay utcHost (date (now utcHost 1704081600000)) = 19723"
    "localDay utcHost (date (now utcHost 1704151800000)) = 19723"
    by (simp_all add: localDay_def localTime_def utcHost_def now_def msPerDay_def)
  have h: "hourOfLocalDay 19723 4 = 1704081600000" "hourOfLocalDay (19723 + 1) 4 = 1704168000000"
    "hourOfLocalDay (19723 + 1) 2 = 1704160800000"
    by (simp_all add: hourOfLocalDay_def msPerDay_def msPerHour_def)
  note v = nextResetLocal_value [OF utc_clock utcHost_fixed]
  show "nextResetLocal utcHost (now utcHost 1704081540000) None (Some ''UTC'')
          = Some 1704081600000"
    using d h by (simp add: v msPerHour_def msPerMinute_def resetHoursOf_def qualifies_def)
  show "nextResetLocal utcHost (now utcHost 1704081600000) None (Some ''UTC'')
          = Some 1704081600000"
    using d h by (simp add: v msPerHour_def msPerMinute_def resetHoursOf_def qualifies_def)
  show "nextResetLocal utcHost (now utcHost 1704151800000) None (Some ''UTC'')
          = Some 1704168000000"
    using d h by (simp add: v msPerHour_def msPerMinute_def resetHoursOf_def qualifies_def)
  show "nextResetLocal utcHost (now utcHost 1704081540000) (Some 2) (Some ''UTC'')
          = Some 1704160800000"
    using d h by (simp add: v msPerHour_def msPerMinute_def resetHoursOf_def qualifies_def)
qed

text \<open>
  Claim C6, at an input where the code departs from it. The claim: with \<open>H\<close> and \<open>M\<close> the
  hour and minute of now projected into the zone asked for, the first entry \<open>h\<close> of the
  schedule with \<open>H < h\<close>, or \<open>H = h\<close> and \<open>M = 0\<close>, is selected, and the result lies at
  minute 0 of the selected hour; at 03:59 with the default schedule it is today 04:00. On
  a host in UTC asked for \<^verbatim>\<open>Asia/Tokyo\<close>, at 18:59 UTC of 2023-12-31, which is 03:59 of
  2024-01-01 in Tokyo: the schedule is 4, 9, 14, 18, 23, the hour and minute are 3 and 59,
  and the entry selected is 4, as claimed; but the result is 04:00 UTC of 2023-12-31,
  which reads 13:00 of 2023-12-31 on the clock of Tokyo, fifteen hours before the 04:00 of
  2024-01-01 that the claim gives.
\<close>

theorem selected_hour_built_on_host_clock:
  "getHour utcHost (targetTimeOf utcHost (now utcHost 1704049140000) (Some ''Asia/Tokyo''))
     = Inr 3
   \<and> getMinute utcHost (targetTimeOf utcHost (now utcHost 1704049140000) (Some ''Asia/Tokyo''))
     = Inr 59
   \<and> resetHoursOf None = [4, 9, 14, 18, 23]
   \<and> findResetHour 3 59 (resetHoursOf None) = Some 4
   \<and> getNextResetTime utcHost (now utcHost 1704049140000) None (Some ''Asia/Tokyo'')
     = Inr \<lparr>date = 1703995200000, zoneName = Some ''UTC''\<rparr>
   \<and> getHour utcHost \<lparr>date = 1703995200000, zoneName = Some ''Asia/Tokyo''\<rparr> = Inr 13
   \<and> getMinute utcHost \<lparr>date = 1703995200000, zoneName = Some ''Asia/Tokyo''\<rparr> = Inr 0"
proof -
  let ?cur = "now utcHost 1704049140000"
  let ?tt = "\<lparr>date = 1704049140000, zoneName = Some ''Asia/Tokyo''\<rparr>"
  have t: "targetTimeOf utcHost ?cur (Some ''Asia/Tokyo'') = ?tt"
    by (simp add: targetTimeOf_def setZone_def utcHost_def zoneTable_def now_def)
  have h: "getHour utcHost ?tt = Inr 3"
    by (simp add: getHour_def utcHost_def zoneTable_def msPerHour_def)
  have m: "getMinute utcHost ?tt = Inr 59"
    by (simp add: getMinute_def utcHost_def zoneTable_def msPerMinute_def)
  have s: "resetHoursOf None = [4, 9, 14, 18, 23]"
    by (simp add: resetHoursOf_def)
  have f: "findResetHour 3 59 (resetHoursOf None) = Some 4"
    by (simp add: s)
  have d: "date (set_dt utcHost (startOf utcHost ?tt) 4) = 1703995200000"
    by (simp add: set_startOf [OF utcHost_fixed] fixed_localTime [OF utcHost_fixed]
        msPerDay_def msPerHour_def)
  have r: "setZone utcHost (set_dt utcHost (startOf utcHost ?tt) 4) ''UTC''
             = \<lparr>date = 1703995200000, zoneName = Some ''UTC''\<rparr>"
    using d by (simp add: setZone_def utcHost_def zoneTable_def)
  have c: "zoneName ?cur = Some ''UTC''"
    by (simp add: now_def utcHost_def)
  have n: "getNextResetTime utcHost ?cur None (Some ''Asia/Tokyo'')
       = Inr \<lparr>date = 1703995200000, zoneName = Some ''UTC''\<rparr>"
    using f by (simp add: getNextResetTime_def t h m c r getZoneName_def Let_def)
  have h': "getHour utcHost \<lparr>date = 1703995200000, zoneName = Some ''Asia/Tokyo''\<rparr> = Inr 13"
    by (simp add: getHour_def utcHost_def zoneTable_def msPerHour_def)
  have m': "getMinute utcHost \<lparr>date = 1703995200000, zoneName = Some ''Asia/Tokyo''\<rparr> = Inr 0"
    by (simp add: getMinute_def utcHost_def zoneTable_def msPerMinute_def)
  from t h m s f n h' m' show ?thesis by simp
qed

text \<open>
  Claim C3, at an input where the code departs from it. The claim: for an invalid zone
  identifier \<^verbatim>\<open>getNextResetTime\<close> projects now into UTC and evaluates the schedule on
  the UTC clock. On a host in Tokyo at 03:30 UTC (12:30 in Tokyo), asked for the zone
  \<^verbatim>\<open>Mars/Olympus\<close>: the projected time is the current time unchanged, in the zone it
  carries; the hour the schedule is evaluated at is 12, where the UTC hour is 3; and the
  result is 14:00 in Tokyo. The call returns.
\<close>

theorem invalid_timezone_keeps_own_zone:
  "targetTimeOf tokyoHost (now tokyoHost 1704079800000) (Some ''Mars/Olympus'')
     = now tokyoHost 1704079800000
   \<and> getHour tokyoHost
         (targetTimeOf tokyoHost (now tokyoHost 1704079800000) (Some ''Mars/Olympus''))
       = Inr 12
   \<and> getHour tokyoHost (setZone tokyoHost (now tokyoHost 1704079800000) ''UTC'') = Inr 3
   \<and> getNextResetTime tokyoHost (now tokyoHost 1704079800000) None (Some ''Mars/Olympus'')
       = Inr \<lparr>date = 1704085200000, zoneName = Some ''Asia/Tokyo''\<rparr>"
proof -
  have t: "targetTimeOf tokyoHost (now tokyoHost 1704079800000) (Some ''Mars/Olympus'')
     = now tokyoHost 1704079800000"
    by (simp add: targetTimeOf_def setZone_def tokyoHost_def zoneTable_def)
  have h: "getHour tokyoHost (now tokyoHost 1704079800000) = Inr 12"
    by (simp add: getHour_def now_def tokyoHost_def zoneTable_def msPerHour_def)
  have m: "getMinute tokyoHost (now tokyoHost 1704079800000) = Inr 30"
    by (simp add: getMinute_def now_def tokyoHost_def zoneTable_def msPerMinute_def)
  have u: "getHour tokyoHost (setZone tokyoHost (now tokyoHost 1704079800000) ''UTC'') = Inr 3"
    by (simp add: getHour_def setZone_def now_def tokyoHost_def zoneTable_def msPerHour_def)
  have d: "date (set_dt tokyoHost (startOf tokyoHost (now tokyoHost 1704079800000)) 14)
             = 1704085200000"
    by (simp add: set_startOf [OF tokyoHost_fixed] fixed_localTime [OF tokyoHost_fixed]
        now_def msPerDay_def msPerHour_def)
  have z: "zoneName (set_dt tokyoHost (startOf tokyoHost (now tokyoHost 1704079800000)) 14)
             = Some ''Asia/Tokyo''"
    by (simp add: set_dt_def startOf_def now_def tokyoHost_def)
  have r: "set_dt tokyoHost (startOf tokyoHost (now tokyoHost 1704079800000)) 14
             = \<lparr>date = 1704085200000, zoneName = Some ''Asia/Tokyo''\<rparr>"
    using d z by (cases "set_dt tokyoHost (startOf tokyoHost (now tokyoHost 1704079800000)) 14") simp
  have n: "getNextResetTime tokyoHost (now tokyoHost 1704079800000) None (Some ''Mars/Olympus'')
       = Inr \<lparr>date = 1704085200000, zoneName = Some ''Asia/Tokyo''\<rparr>"
    by (simp add: getNextResetTime_def t h m r resetHoursOf_def getZoneName_def)
  from t h u n show ?thesis by simp
qed

text \<open>
  Claim C7, at an input where the code departs from it. The claim: the instant returned is
  not before now, at the granularity of minutes, for every zone. On a host in UTC at 20:30
  UTC on 2024-01-01, asked for \<^verbatim>\<open>Asia/Tokyo\<close> (where it is 05:30 of the next day): the
  hour selected is 9, and the result is 09:00 UTC of 2024-01-01, eleven and a half hours
  before now.
\<close>

theorem reset_before_now_when_zone_differs:
  "getNextResetTime utcHost (now utcHost 1704141000000) None (Some ''Asia/Tokyo'')
     = Inr \<lparr>date = 1704099600000, zoneName = Some ''UTC''\<rparr>
   \<and> minuteOf 1704099600000 < minuteOf (date (now utcHost 1704141000000))"
proof -
  let ?cur = "now utcHost 1704141000000"
  let ?tt = "\<lparr>date = 1704141000000, zoneName = Some ''Asia/Tokyo''\<rparr>"
  have t: "targetTimeOf utcHost ?cur (Some ''Asia/Tokyo'') = ?tt"
    by (simp add: targetTimeOf_def setZone_def utcHost_def zoneTable_def now_def)
  have h: "getHour utcHost ?tt = Inr 5"
    by (simp add: getHour_def utcHost_def zoneTable_def msPerHour_def)
  have m: "getMinute utcHost ?tt = Inr 30"
    by (simp add: getMinute_def utcHost_def zoneTable_def msPerMinute_def)
  have d: "date (set_dt utcHost (startOf utcHost ?tt) 9) = 1704099600000"
    by (simp add: set_startOf [OF utcHost_fixed] fixed_localTime [OF utcHost_fixed]
        msPerDay_def msPerHour_def)
  have z: "zoneName (set_dt utcHost (startOf utcHost ?tt) 9) = Some ''Asia/Tokyo''"
    by (simp add: set_dt_def startOf_def)
  have r: "setZone utcHost (set_dt utcHost (startOf utcHost ?tt) 9) ''UTC''
             = \<lparr>date = 1704099600000, zoneName = Some ''UTC''\<rparr>"
    using d by (simp add: setZone_def utcHost_def zoneTable_def)
  have c: "zoneName ?cur = Some ''UTC''"
    by (simp add: now_def utcHost_def)
  have n: "getNextResetTime utcHost ?cur None (Some ''Asia/Tokyo'')
       = Inr \<lparr>date = 1704099600000, zoneName = Some ''UTC''\<rparr>"
    by (simp add: getNextResetTime_def t h m c r resetHoursOf_def getZoneName_def Let_def)
  have "minuteOf 1704099600000 < minuteOf (date ?cur)"
    by (simp add: minuteOf_def msPerMinute_def now_def)
  with n show ?thesis by simp
qed

lemma find_qualifies_Some: "find (qualifies H M) hs = Some h \<Longrightarrow> qualifies H M h"
  by (induction hs) (auto split: if_splits)

text \<open>
  On a host at a fixed offset, where the hour and minute the schedule is evaluated at are
  those of the host's local clock, the result is not before now at the granularity of
  minutes.
\<close>

lemma next_reset_not_before_now_on_host_clock:
  assumes hr: "getHour rt (targetTimeOf rt cur tz) = Inr (Date_getHours rt (date cur))"
    and mi: "getMinute rt (targetTimeOf rt cur tz) = Inr (Date_getMinutes rt (date cur))"
    and c0: "0 \<le> hd (resetHoursOf c)"
    and fx: "fixedOffsetHost rt d"
  shows "\<exists>L. nextResetLocal rt cur c tz = Some L
             \<and> minuteOf (localTime rt (date cur)) \<le> minuteOf L"
proof -
  define L0 where "L0 = localTime rt (date cur)"
  define H where "H = (L0 div 3600000) mod 24"
  define M where "M = (L0 div 60000) mod 60"
  have H: "Date_getHours rt (date cur) = H" and M: "Date_getMinutes rt (date cur) = M"
    by (simp_all add: H_def M_def L0_def Date_getHours_def Date_getMinutes_def msPerHour_def
        msPerMinute_def)
  have hs: "(L0 div 86400000) * 86400000 + H * 3600000 + L0 mod 3600000 = L0"
    unfolding H_def by (rule hour_split)
  have ms: "(L0 div 3600000) * 3600000 + M * 60000 + L0 mod 60000 = L0"
    unfolding M_def by (rule minute_split)
  have b1: "L0 mod 3600000 < 3600000" "0 \<le> L0 mod 3600000" "0 \<le> L0 mod 60000"
    by simp_all
  have hm: "L0 mod 3600000 = M * 60000 + L0 mod 60000"
    using ms div_mult_mod_eq [of L0 3600000] by linarith
  note v = nextResetLocal_value [OF hr mi fx, of c, unfolded H M, folded L0_def]
  show ?thesis
  proof (cases "find (qualifies H M) (resetHoursOf c)")
    case None
    let ?R = "hourOfLocalDay (localDay rt (date cur) + 1) (hd (resetHoursOf c))"
    have "L0 \<le> ?R"
      using c0 hs b1
      by (simp add: hourOfLocalDay_def localDay_def L0_def [symmetric] msPerDay_def
          msPerHour_def algebra_simps)
    then have "minuteOf L0 \<le> minuteOf ?R"
      by (simp add: minuteOf_def msPerMinute_def zdiv_mono1)
    with v None show ?thesis by (simp add: L0_def)
  next
    case (Some h)
    let ?R = "hourOfLocalDay (localDay rt (date cur)) h"
    from Some have q: "qualifies H M h" by (rule find_qualifies_Some)
    have "minuteOf L0 \<le> minuteOf ?R"
    proof (cases "H < h")
      case True
      then have "(H + 1) * 3600000 \<le> h * 3600000" by simp
      with hs b1 have "L0 \<le> ?R"
        by (simp add: hourOfLocalDay_def localDay_def L0_def [symmetric] msPerDay_def
            msPerHour_def algebra_simps)
      then show ?thesis
        by (simp add: minuteOf_def msPerMinute_def zdiv_mono1)
    next
      case False
      with q have e: "H = h" "M = 0" by (auto simp: qualifies_def)
      with hs hm have "?R = L0 - L0 mod 60000"
        by (simp add: hourOfLocalDay_def localDay_def L0_def [symmetric] msPerDay_def
            msPerHour_def algebra_simps)
      also have "\<dots> = (L0 div 60000) * 60000"
        using div_mult_mod_eq [of L0 60000] by linarith
      finally have "minuteOf ?R = L0 div 60000"
        by (simp add: minuteOf_def msPerMinute_def)
      then show ?thesis by (simp add: minuteOf_def msPerMinute_def)
    qed
    with v Some show ?thesis by (simp add: L0_def)
  qed
qed

section \<open>The monitor loop\<close>

lemma tick_active:
  assumes "fetched inp = Some blocks"
    and "find (\<lambda>block. truthyFlag (isActive block)) blocks = Some a"
  shows "tick rt opts l inp =
           (switchedLimit opts l (tokensOf a) blocks,
            case snapshotOf rt opts (switchedLimit opts l (tokensOf a) blocks) blocks a
                   (clock1 inp) (clock2 inp) of
              Inl e \<Rightarrow> Thrown e
            | Inr s \<Rightarrow> Rendered s)"
  using assms by (simp add: tick_def Let_def)

lemma snapshotOf_fields:
  assumes "snapshotOf rt opts lmt blocks a c1 c2 = Inr s"
  shows "tokensUsed s = tokensOf a" and "tokenLimitNow s = lmt"
    and "tokensLeft s = int lmt - int (tokensOf a)"
    and "showExceedNotification s = (lmt < tokensOf a)"
    and "showSwitchNotification s = (7000 < tokensOf a \<and> plan opts = ''pro'' \<and> 7000 < lmt)"
    and "calculateHourlyBurnRate rt blocks (currentTimeNow s) = Inr (burnRate s)"
    and "getNextResetTime rt (currentTimeNow s) (resetHour opts) (Some (timezone opts))
           = Inr (resetTime s)"
    and "predictedEndTime s
           = predictedEndTimeOf rt (currentTimeNow s) (burnRate s) (tokensLeft s) (resetTime s)"
    and "runsOutBeforeReset s = (valueOf (predictedEndTime s) < valueOf (resetTime s))"
  using assms
  by (auto simp: snapshotOf_def Let_def split: sum.splits prod.splits)

lemma snapshotOf_renders:
  assumes "currentTimeAndElapsed rt a c1 c2 = Inr (ct, el)"
    and "calculateHourlyBurnRate rt blocks ct = Inr r"
    and "getNextResetTime rt ct (resetHour opts) (Some (timezone opts)) = Inr rs"
  shows "\<exists>s. snapshotOf rt opts lmt blocks a c1 c2 = Inr s \<and> currentTimeNow s = ct
              \<and> burnRate s = r \<and> resetTime s = rs"
  using assms by (simp add: snapshotOf_def Let_def)

lemma predictedEndTimeOf_cases:
  assumes "fixedOffsetHost rt d"
  shows "predictedEndTimeOf rt ct rate left reset =
     (if 0 < rate \<and> 0 < left
      then \<lparr>date = date ct + \<lfloor>real_of_int left / rate\<rfloor> * msPerMinute,
            zoneName = zoneName ct\<rparr>
      else reset)"
  by (simp add: predictedEndTimeOf_def Let_def plus_minutes [OF _ assms])

lemma custom_max_is_number:
  "getTokenLimit ''custom_max'' (Some blocks)
     = Limit (if 0 < maxTokensLoop blocks 0 then maxTokensLoop blocks 0 else 7000)"
  by (simp add: getTokenLimit_def)

lemma custom_max_over_7000:
  "(getTokenLimit ''custom_max'' (Some blocks) = Limit n \<and> 7000 < n)
     = (getTokenLimit ''custom_max'' (Some blocks) = Limit n
        \<and> (\<exists>b \<in> set (completedBlocks blocks). 7000 < tokensOf b))"
proof (cases "completedBlocks blocks = []")
  case True
  then show ?thesis by (auto simp: getTokenLimit_def maxTokensLoop_0)
next
  case False
  then have "(7000 < Max (set (map tokensOf (completedBlocks blocks))))
               = (\<exists>b \<in> set (completedBlocks blocks). 7000 < tokensOf b)"
    by (simp add: Max_gr_iff)
  with False show ?thesis
    by (auto simp: getTokenLimit_def maxTokensLoop_0 Let_def)
qed

lemma switchedLimit_custom_max:
  "switchedLimit opts l used blocks = l
   \<or> (plan opts = ''pro'' \<and> l < used \<and> l < switchedLimit opts l used blocks
      \<and> Limit (switchedLimit opts l used blocks) = getTokenLimit ''custom_max'' (Some blocks))"
  by (simp add: switchedLimit_def custom_max_is_number)

text \<open>
  A pass renders, and does not throw, when the time stamps of the blocks parse and the
  zone of the host is in the zone database.
\<close>

lemma tokensInHourOf_returns:
  "timestampsParse rt b \<Longrightarrow> \<exists>x. tokensInHourOf rt cur oha b = Inr x"
  by (auto simp: timestampsParse_def tokensInHourOf_def fromISO_def sessionActualEndOf_def
      Let_def split: if_splits)

lemma burnLoop_returns:
  "\<forall>b\<in>set blocks. timestampsParse rt b \<Longrightarrow> \<exists>r. burnLoop rt cur oha blocks acc = Inr r"
proof (induction blocks arbitrary: acc)
  case Nil
  then show ?case by simp
next
  case (Cons b blocks)
  from Cons.prems obtain x where "tokensInHourOf rt cur oha b = Inr x"
    using tokensInHourOf_returns [of rt b cur oha] by auto
  with Cons show ?case by simp
qed

lemma burn_rate_returns:
  assumes "\<forall>b\<in>set blocks. timestampsParse rt b"
  shows "\<exists>r. calculateHourlyBurnRate rt blocks ct = Inr r"
proof -
  from burnLoop_returns [OF assms]
  obtain r where "burnLoop rt ct (minus_dt rt ct (noDuration\<lparr>hours := Some 1\<rparr>)) blocks 0
                    = Inr r"
    by blast
  then show ?thesis
    by (simp add: calculateHourlyBurnRate_def)
qed

lemma next_reset_returns:
  assumes "zoneName ct = Some z" and "zoneOffset rt z \<noteq> None"
  shows "\<exists>r. getNextResetTime rt ct c tz = Inr r"
proof -
  have "\<exists>z'. zoneName (targetTimeOf rt ct tz) = Some z' \<and> zoneOffset rt z' \<noteq> None"
    using assms by (auto simp: targetTimeOf_def setZone_def Let_def split: option.splits)
  then obtain z' d where z': "zoneName (targetTimeOf rt ct tz) = Some z'"
    and d: "zoneOffset rt z' = Some d"
    by auto
  then have "\<exists>H. getHour rt (targetTimeOf rt ct tz) = Inr H"
    and "\<exists>M. getMinute rt (targetTimeOf rt ct tz) = Inr M"
    by (simp_all add: getHour_def getMinute_def)
  then show ?thesis
    by (auto simp: getNextResetTime_def Let_def)
qed

lemma currentTime_returns:
  assumes "timestampsParse rt a" and "zoneOffset rt (hostZone rt) \<noteq> None"
  shows "\<exists>ct el. currentTimeAndElapsed rt a c1 c2 = Inr (ct, el)
                 \<and> zoneName ct = Some (hostZone rt)"
  using assms
  by (auto simp: currentTimeAndElapsed_def timestampsParse_def fromISO_def now_def
      setZone_def getZoneName_def Let_def split: if_splits)

lemma tick_renders:
  assumes "fetched inp = Some blocks"
    and "find (\<lambda>block. truthyFlag (isActive block)) blocks = Some a"
    and "\<forall>b\<in>set blocks. timestampsParse rt b"
    and "zoneOffset rt (hostZone rt) \<noteq> None"
  shows "\<exists>s. snd (tick rt opts l inp) = Rendered s"
proof -
  from assms(2) have "a \<in> set blocks"
    by (auto simp: find_Some_iff)
  with assms(3) have "timestampsParse rt a" by blast
  from currentTime_returns [OF this assms(4), of c1 c2 for c1 c2]
  obtain ct el where ct: "currentTimeAndElapsed rt a (clock1 inp) (clock2 inp) = Inr (ct, el)"
    and z: "zoneName ct = Some (hostZone rt)"
    by blast
  from burn_rate_returns [OF assms(3)]
  obtain r where r: "calculateHourlyBurnRate rt blocks ct = Inr r" by blast
  from next_reset_returns [OF z assms(4)]
  obtain rs where rs: "getNextResetTime rt ct (resetHour opts) (Some (timezone opts)) = Inr rs"
    by blast
  from snapshotOf_renders [OF ct r rs, of "switchedLimit opts l (tokensOf a) blocks"]
  obtain s where "snapshotOf rt opts (switchedLimit opts l (tokensOf a) blocks) blocks a
                    (clock1 inp) (clock2 inp) = Inr s"
    by blast
  then show ?thesis
    by (simp add: tick_active [OF assms(1,2)])
qed

lemma monitorLoop_continues:
  assumes "snd (tick rt opts l inp) = Rendered s"
  shows "map fst (monitorLoop rt opts l (inp # inps))
           = fst (tick rt opts l inp)
               # map fst (monitorLoop rt opts (fst (tick rt opts l inp)) inps)"
  using assms by (simp add: Let_def)

lemma tick_exceed_flag:
  assumes "fetched inp = Some blocks"
    and "find (\<lambda>block. truthyFlag (isActive block)) blocks = Some a"
    and "\<forall>b\<in>set blocks. timestampsParse rt b"
    and "zoneOffset rt (hostZone rt) \<noteq> None"
  shows "fst (tick rt opts l inp) = switchedLimit opts l (tokensOf a) blocks"
    and "map_option showExceedNotification (renderedSnapshot (snd (tick rt opts l inp)))
           = Some (switchedLimit opts l (tokensOf a) blocks < tokensOf a)"
proof -
  show "fst (tick rt opts l inp) = switchedLimit opts l (tokensOf a) blocks"
    by (simp add: tick_active [OF assms(1,2)])
  from tick_renders [OF assms, of opts l]
  obtain s where s: "snd (tick rt opts l inp) = Rendered s" by blast
  then have "snapshotOf rt opts (switchedLimit opts l (tokensOf a) blocks) blocks a
               (clock1 inp) (clock2 inp) = Inr s"
    by (simp add: tick_active [OF assms(1,2)] split: sum.splits)
  from snapshotOf_fields(4) [OF this] s
  show "map_option showExceedNotification (renderedSnapshot (snd (tick rt opts l inp)))
           = Some (switchedLimit opts l (tokensOf a) blocks < tokensOf a)"
    by simp
qed

lemma demo_blocks_parse:
  "\<forall>b\<in>set [aBlock (Some ''2024-01-01T00:00:00Z'') (Some ''2024-01-01T03:00:00Z'') m False False,
             aBlock (Some ''2024-01-01T03:00:00Z'') None n True False]. timestampsParse utcHost b"
  by (simp add: timestampsParse_def aBlock_def utcHost_def isoTable_def)

lemma demo_blocks_active:
  "find (\<lambda>block. truthyFlag (isActive block))
     [aBlock (Some ''2024-01-01T00:00:00Z'') (Some ''2024-01-01T03:00:00Z'') m False False,
      aBlock (Some ''2024-01-01T03:00:00Z'') None n True False]
   = Some (aBlock (Some ''2024-01-01T03:00:00Z'') None n True False)"
  by (simp add: aBlock_def)

lemma demo_blocks_completed:
  "completedBlocks
     [aBlock (Some ''2024-01-01T00:00:00Z'') (Some ''2024-01-01T03:00:00Z'') m False False,
      aBlock (Some ''2024-01-01T03:00:00Z'') None n True False]
   = [aBlock (Some ''2024-01-01T00:00:00Z'') (Some ''2024-01-01T03:00:00Z'') m False False]"
  by (simp add: completedBlocks_def aBlock_def)

lemma tokensOf_aBlock: "tokensOf (aBlock s e n a g) = n"
  by (simp add: aBlock_def tokensOf_def)

lemma demo_blocks_over_7000:
  "(\<exists>b \<in> set (completedBlocks
     [aBlock (Some ''2024-01-01T00:00:00Z'') (Some ''2024-01-01T03:00:00Z'') m False False,
      aBlock (Some ''2024-01-01T03:00:00Z'') None n True False]). 7000 < tokensOf b)
   = (7000 < m)"
  by (simp add: demo_blocks_completed tokensOf_aBlock)

lemma utcHost_zone: "zoneOffset utcHost (hostZone utcHost) \<noteq> None"
  by (simp add: utcHost_def zoneTable_def)

lemma demo_custom_max:
  "0 < m \<Longrightarrow> getTokenLimit ''custom_max''
     (Some [aBlock (Some ''2024-01-01T00:00:00Z'') (Some ''2024-01-01T03:00:00Z'') m False False,
            aBlock (Some ''2024-01-01T03:00:00Z'') None n True False]) = Limit m"
  by (simp add: getTokenLimit_def aBlock_def tokensOf_def)

text \<open>
  Claim C8, as the code has it. In a pass with plan \<^verbatim>\<open>pro\<close>, the quota at 7000 and an
  active block of 8000 tokens: the quota becomes the \<^verbatim>\<open>custom_max\<close> value when some
  completed block that is no gap has more than 7000 tokens, and stays 7000 otherwise; the
  exceeded-quota flag of the pass is derived after that step, from the quota then in
  force: it is true exactly when that quota is below 8000, so it is true when the quota
  stays 7000 or rises to less than 8000, and false when the quota rises to 8000 or more.
  The flag of the switch to \<^verbatim>\<open>custom_max\<close> is true exactly when the quota rose.
\<close>

theorem pro_plan_tick_at_8000_tokens:
  assumes "plan opts = ''pro''"
    and "fetched inp = Some blocks"
    and "find (\<lambda>block. truthyFlag (isActive block)) blocks = Some a"
    and "tokensOf a = 8000"
  shows "Limit (fst (tick rt opts 7000 inp)) =
           (if \<exists>b \<in> set (completedBlocks blocks). 7000 < tokensOf b
            then getTokenLimit ''custom_max'' (Some blocks)
            else Limit 7000)
    \<and> (\<forall>s. snd (tick rt opts 7000 inp) = Rendered s \<longrightarrow>
          tokensUsed s = 8000
          \<and> tokenLimitNow s = fst (tick rt opts 7000 inp)
          \<and> showExceedNotification s = (fst (tick rt opts 7000 inp) < 8000)
          \<and> showSwitchNotification s = (\<exists>b \<in> set (completedBlocks blocks). 7000 < tokensOf b))"
proof -
  let ?l = "switchedLimit opts 7000 (tokensOf a) blocks"
  note t = tick_active [OF assms(2,3), of rt opts 7000]
  obtain n where n: "getTokenLimit ''custom_max'' (Some blocks) = Limit n"
    by (simp add: custom_max_is_number)
  have l: "Limit ?l = (if \<exists>b \<in> set (completedBlocks blocks). 7000 < tokensOf b
            then getTokenLimit ''custom_max'' (Some blocks) else Limit 7000)"
    using assms(1,4) n custom_max_over_7000 [of blocks n]
    by (auto simp: switchedLimit_def)
  have l7: "(7000 < ?l) = (\<exists>b \<in> set (completedBlocks blocks). 7000 < tokensOf b)"
    using assms(1,4) n custom_max_over_7000 [of blocks n]
    by (auto simp: switchedLimit_def)
  have f: "fst (tick rt opts 7000 inp) = ?l"
    by (simp add: t)
  have r: "tokensUsed s = 8000 \<and> tokenLimitNow s = ?l \<and> showExceedNotification s = (?l < 8000)
           \<and> showSwitchNotification s = (\<exists>b \<in> set (completedBlocks blocks). 7000 < tokensOf b)"
    if "snd (tick rt opts 7000 inp) = Rendered s" for s
  proof -
    from that have "snapshotOf rt opts ?l blocks a (clock1 inp) (clock2 inp) = Inr s"
      by (simp add: t split: sum.splits)
    from snapshotOf_fields(1,2,4,5) [OF this] assms(1,4) l7 show ?thesis
      by simp
  qed
  from f l r show ?thesis by simp
qed

text \<open>
  A completed block of 6000 tokens leaves the quota at 7000, one of 7500 tokens raises it
  to 7500; the flag is true in both passes.
\<close>

theorem pro_plan_tick_at_8000_tokens_witness:
  "fst (tick utcHost proOptions 7000 (tickAt 1704079800000
        [aBlock (Some ''2024-01-01T00:00:00Z'') (Some ''2024-01-01T03:00:00Z'') 6000 False False,
         aBlock (Some ''2024-01-01T03:00:00Z'') None 8000 True False])) = 7000
   \<and> map_option showExceedNotification (renderedSnapshot (snd (tick utcHost proOptions 7000 (tickAt 1704079800000
        [aBlock (Some ''2024-01-01T00:00:00Z'') (Some ''2024-01-01T03:00:00Z'') 6000 False False,
         aBlock (Some ''2024-01-01T03:00:00Z'') None 8000 True False])))) = Some True
   \<and> fst (tick utcHost proOptions 7000 (tickAt 1704079800000
        [aBlock (Some ''2024-01-01T00:00:00Z'') (Some ''2024-01-01T03:00:00Z'') 7500 False False,
         aBlock (Some ''2024-01-01T03:00:00Z'') None 8000 True False])) = 7500
   \<and> map_option showExceedNotification (renderedSnapshot (snd (tick utcHost proOptions 7000 (tickAt 1704079800000
        [aBlock (Some ''2024-01-01T00:00:00Z'') (Some ''2024-01-01T03:00:00Z'') 7500 False False,
         aBlock (Some ''2024-01-01T03:00:00Z'') None 8000 True False])))) = Some True"
proof -
  have p: "plan proOptions = ''pro''" by (simp add: proOptions_def)
  have f: "fetched (tickAt c bs) = Some bs" for c bs by (simp add: tickAt_def)
  have u: "tokensOf (aBlock (Some ''2024-01-01T03:00:00Z'') None 8000 True False) = 8000"
    by (rule tokensOf_aBlock)
  note a = pro_plan_tick_at_8000_tokens
    [where rt = utcHost, OF p f [of 1704079800000] demo_blocks_active [of 6000 8000] u]
  note b = pro_plan_tick_at_8000_tokens
    [where rt = utcHost, OF p f [of 1704079800000] demo_blocks_active [of 7500 8000] u]
  from tick_renders [where opts = proOptions and l = 7000, OF f [of 1704079800000]
      demo_blocks_active [of 6000 8000] demo_blocks_parse [of 6000 8000] utcHost_zone]
  obtain s1 where s1: "snd (tick utcHost proOptions 7000 (tickAt 1704079800000
        [aBlock (Some ''2024-01-01T00:00:00Z'') (Some ''2024-01-01T03:00:00Z'') 6000 False False,
         aBlock (Some ''2024-01-01T03:00:00Z'') None 8000 True False])) = Rendered s1" by blast
  from tick_renders [where opts = proOptions and l = 7000, OF f [of 1704079800000]
      demo_blocks_active [of 7500 8000] demo_blocks_parse [of 7500 8000] utcHost_zone]
  obtain s2 where s2: "snd (tick utcHost proOptions 7000 (tickAt 1704079800000
        [aBlock (Some ''2024-01-01T00:00:00Z'') (Some ''2024-01-01T03:00:00Z'') 7500 False False,
         aBlock (Some ''2024-01-01T03:00:00Z'') None 8000 True False])) = Rendered s2" by blast
  have l1: "fst (tick utcHost proOptions 7000 (tickAt 1704079800000
        [aBlock (Some ''2024-01-01T00:00:00Z'') (Some ''2024-01-01T03:00:00Z'') 6000 False False,
         aBlock (Some ''2024-01-01T03:00:00Z'') None 8000 True False])) = 7000"
    using a by (simp add: demo_blocks_over_7000)
  have l2: "fst (tick utcHost proOptions 7000 (tickAt 1704079800000
        [aBlock (Some ''2024-01-01T00:00:00Z'') (Some ''2024-01-01T03:00:00Z'') 7500 False False,
         aBlock (Some ''2024-01-01T03:00:00Z'') None 8000 True False])) = 7500"
    using b by (simp add: demo_blocks_over_7000 demo_custom_max)
  from a s1 l1 have e1: "showExceedNotification s1" by simp
  from b s2 l2 have e2: "showExceedNotification s2" by simp
  from l1 l2 e1 e2 s1 s2 show ?thesis by simp
qed

text \<open>
  Claim C8 as stated, that the flag is true in either case, fails: with a completed block
  of 50000 tokens the quota becomes 50000 and the flag of the pass is false.
\<close>

theorem escalated_quota_not_exceeded_counterexample:
  "fst (tick utcHost proOptions 7000 (tickAt 1704079800000
        [aBlock (Some ''2024-01-01T00:00:00Z'') (Some ''2024-01-01T03:00:00Z'') 50000 False False,
         aBlock (Some ''2024-01-01T03:00:00Z'') None 8000 True False])) = 50000
   \<and> map_option showExceedNotification (renderedSnapshot (snd (tick utcHost proOptions 7000 (tickAt 1704079800000
        [aBlock (Some ''2024-01-01T00:00:00Z'') (Some ''2024-01-01T03:00:00Z'') 50000 False False,
         aBlock (Some ''2024-01-01T03:00:00Z'') None 8000 True False])))) = Some False"
proof -
  have f: "fetched (tickAt c bs) = Some bs" for c bs by (simp add: tickAt_def)
  note t = tick_exceed_flag [where opts = proOptions and l = 7000, OF f [of 1704079800000]
      demo_blocks_active [of 50000 8000] demo_blocks_parse [of 50000 8000] utcHost_zone]
  have "switchedLimit proOptions 7000 (tokensOf (aBlock (Some ''2024-01-01T03:00:00Z'') None 8000 True False))
          [aBlock (Some ''2024-01-01T00:00:00Z'') (Some ''2024-01-01T03:00:00Z'') 50000 False False,
           aBlock (Some ''2024-01-01T03:00:00Z'') None 8000 True False] = 50000"
    by (simp add: switchedLimit_def demo_custom_max proOptions_def tokensOf_aBlock)
  moreover have "tokensOf (aBlock (Some ''2024-01-01T03:00:00Z'') None 8000 True False) = 8000"
    by (rule tokensOf_aBlock)
  ultimately show ?thesis using t by simp
qed

text \<open>
  The predicted end the code computes on a host at a fixed offset: when it burns and
  tokens are left, now plus the whole minutes of \<open>tokensLeft / burnRate\<close>, since \<^verbatim>\<open>plus\<close> adds minutes through
  \<^verbatim>\<open>Date.setMinutes\<close>; else the reset time.
\<close>

lemma rendered_predicted_end:
  assumes "snd (tick rt opts l inp) = Rendered s" and "fixedOffsetHost rt d"
  shows "predictedEndTime s =
           (if 0 < burnRate s \<and> 0 < tokensLeft s
            then \<lparr>date = date (currentTimeNow s)
                          + \<lfloor>real_of_int (tokensLeft s) / burnRate s\<rfloor> * msPerMinute,
                  zoneName = zoneName (currentTimeNow s)\<rparr>
            else resetTime s)"
proof -
  from assms(1) obtain lmt blocks a where
    "snapshotOf rt opts lmt blocks a (clock1 inp) (clock2 inp) = Inr s"
    by (auto simp: tick_def Let_def split: option.splits sum.splits)
  from snapshotOf_fields(8) [OF this] show ?thesis
    by (simp add: predictedEndTimeOf_cases [OF assms(2)])
qed

text \<open>
  Claim C9, at an input where the code departs from it. The claim: with \<open>burnRate > 0\<close>
  and \<open>tokensLeft > 0\<close> the predicted instant of exhaustion is now plus
  \<open>tokensLeft / burnRate\<close> minutes. On plan \<^verbatim>\<open>pro\<close> with one active block of 900 tokens
  begun 30 minutes ago, the burn rate is 15 and 6100 tokens are left, 406 minutes and 40
  seconds of burning: the code predicts now plus 406 minutes (03:30 plus 406 minutes,
  10:16:00), where the claim gives 10:16:40.
\<close>

theorem predicted_end_drops_fraction_of_minute:
  "map_option (\<lambda>s. (burnRate s, tokensLeft s, date (currentTimeNow s), date (predictedEndTime s)))
     (renderedSnapshot (snd (tick utcHost proOptions 7000
        (tickAt 1704079800000 [aBlock (Some ''2024-01-01T03:00:00Z'') None 900 True False]))))
     = Some (15, 6100, 1704079800000, 1704104160000)
   \<and> exhaustionClaimed 1704079800000 6100 15 = 1704104200000"
proof -
  let ?a = "aBlock (Some ''2024-01-01T03:00:00Z'') None 900 True False"
  let ?inp = "tickAt 1704079800000 [?a]"
  let ?ct = "\<lparr>date = 1704079800000, zoneName = Some ''UTC''\<rparr>"
  have f: "fetched ?inp = Some [?a]" by (simp add: tickAt_def)
  have c: "clock1 ?inp = 1704079800000" "clock2 ?inp = 1704079800000" by (simp_all add: tickAt_def)
  have a: "find (\<lambda>block. truthyFlag (isActive block)) [?a] = Some ?a"
    by (simp add: aBlock_def)
  have l: "switchedLimit proOptions 7000 (tokensOf ?a) [?a] = 7000"
    by (simp add: switchedLimit_def tokensOf_aBlock)
  have t: "currentTimeAndElapsed utcHost ?a 1704079800000 1704079800000 = Inr (?ct, 30)"
    by (simp add: currentTimeAndElapsed_def fromISO_def aBlock_def utcHost_def isoTable_def
        zoneTable_def tzMatch_def getZoneName_def setZone_def now_def diff_def)
  have b: "calculateHourlyBurnRate utcHost [?a] ?ct = Inr 15"
    by (simp add: calculateHourlyBurnRate_def utcHost_minus_one_hour)
       (simp add: tokensInHourOf_def fromISO_def sessionActualEndOf_def valueOf_def
        diff_def msPerHour_def tokensOf_def aBlock_def utcHost_def isoTable_def)
  have "zoneName ?ct = Some ''UTC''" and "zoneOffset utcHost ''UTC'' \<noteq> None"
    by (simp_all add: utcHost_def zoneTable_def)
  from next_reset_returns [OF this]
  obtain rs where rs: "getNextResetTime utcHost ?ct (resetHour proOptions)
      (Some (timezone proOptions)) = Inr rs"
    by blast
  from snapshotOf_renders [OF t b rs, of 7000]
  obtain s where s: "snapshotOf utcHost proOptions 7000 [?a] ?a 1704079800000 1704079800000 = Inr s"
    and s1: "currentTimeNow s = ?ct" and s2: "burnRate s = 15"
    by blast
  have r: "snd (tick utcHost proOptions 7000 ?inp) = Rendered s"
    by (simp add: tick_active [OF f a] l c s)
  have left: "tokensLeft s = 6100"
    using snapshotOf_fields(3) [OF s] by (simp add: tokensOf_aBlock)
  have "date (predictedEndTime s) = 1704104160000"
    using rendered_predicted_end [OF r utcHost_fixed] s1 s2 left
    by (simp add: msPerMinute_def)
  with r s1 s2 left show ?thesis
    by (simp add: exhaustionClaimed_def)
qed

text \<open>With options that pass \<^verbatim>\<open>validateArgs\<close> the run starts from a number.\<close>

lemma valid_plan_initial_limit:
  assumes "validateArgs opts"
  shows "\<exists>n. initialTokenLimit opts initialData = Limit n \<and> 0 < n"
proof -
  from assms consider "plan opts = ''pro''" | "plan opts = ''max5''" | "plan opts = ''max20''"
    | "plan opts = ''custom_max''"
    by (auto simp: validateArgs_def)
  then show ?thesis
  proof cases
    case 1
    then show ?thesis
      by (simp add: initialTokenLimit_def getTokenLimit_def limitsLookup_def limits_def)
  next
    case 2
    then show ?thesis
      by (simp add: initialTokenLimit_def getTokenLimit_def limitsLookup_def limits_def)
  next
    case 3
    then show ?thesis
      by (simp add: initialTokenLimit_def getTokenLimit_def limitsLookup_def limits_def)
  next
    case 4
    then show ?thesis
      by (cases initialData)
        (simp_all add: initialTokenLimit_def getTokenLimit_def limitsLookup_def limits_def
          Let_def)
  qed
qed

lemma switchedLimit_ge: "tokenLimit \<le> switchedLimit opts tokenLimit used blocks"
  by (simp add: switchedLimit_def split: limitValue.splits)

lemma tick_limit_ge: "tokenLimit \<le> fst (tick rt opts tokenLimit inp)"
  by (simp add: tick_def switchedLimit_ge Let_def split: option.splits)

lemma monitorLoop_limits_ge:
  "\<forall>l \<in> set (map fst (monitorLoop rt opts tokenLimit inps)). tokenLimit \<le> l"
proof (induction inps arbitrary: tokenLimit)
  case Nil
  then show ?case by simp
next
  case (Cons inp inps)
  have a: "tokenLimit \<le> fst (tick rt opts tokenLimit inp)"
    by (rule tick_limit_ge)
  have "\<forall>l \<in> set (map fst (monitorLoop rt opts (fst (tick rt opts tokenLimit inp)) inps)).
          tokenLimit \<le> l"
    using Cons.IH [of "fst (tick rt opts tokenLimit inp)"] a by auto
  with a show ?case
    by (auto simp: Let_def split: tickOutcome.splits)
qed

lemma monitorLoop_limits_sorted:
  "sorted (tokenLimit # map fst (monitorLoop rt opts tokenLimit inps))"
proof (induction inps arbitrary: tokenLimit)
  case Nil
  then show ?case by simp
next
  case (Cons inp inps)
  show ?case
    using Cons.IH [of "fst (tick rt opts tokenLimit inp)"]
      monitorLoop_limits_ge [of rt opts tokenLimit "inp # inps"]
    by (auto simp: Let_def split: tickOutcome.splits)
qed

text \<open>
  Claim C10. In every run of the monitor loop the token limit in the variable never
  decreases: a pass leaves it at least as large as it found it; it changes the limit only
  on plan \<^verbatim>\<open>pro\<close>, when the tokens of the active block exceed it, and then to the
  \<^verbatim>\<open>custom_max\<close> value of the blocks, which is larger; so the limits of a run, from the
  initial one on, are in ascending order, a later one is never below an earlier one, and
  none is below the limit the run was started with (the number \<^verbatim>\<open>getTokenLimit\<close> gave
  before the first pass).
\<close>

theorem token_limit_never_decreases:
  "tokenLimit \<le> fst (tick rt opts tokenLimit inp)
   \<and> (fst (tick rt opts tokenLimit inp) \<noteq> tokenLimit \<longrightarrow>
        plan opts = ''pro''
        \<and> (\<exists>blocks a. fetched inp = Some blocks
              \<and> find (\<lambda>block. truthyFlag (isActive block)) blocks = Some a
              \<and> tokenLimit < tokensOf a
              \<and> Limit (fst (tick rt opts tokenLimit inp))
                  = getTokenLimit ''custom_max'' (Some blocks)))
   \<and> sorted (limitsOfRun rt opts tokenLimit inps)
   \<and> (i \<le> j \<and> j < length (limitsOfRun rt opts tokenLimit inps) \<longrightarrow>
        limitsOfRun rt opts tokenLimit inps ! i \<le> limitsOfRun rt opts tokenLimit inps ! j)
   \<and> (initialTokenLimit opts initialData = Limit l0
        \<and> j < length (limitsOfRun rt opts l0 inps) \<longrightarrow>
        l0 \<le> limitsOfRun rt opts l0 inps ! j)"
proof -
  have s: "sorted (limitsOfRun rt opts l inps)" for l
    unfolding limitsOfRun_def by (rule monitorLoop_limits_sorted)
  have m: "i \<le> j \<and> j < length (limitsOfRun rt opts l inps) \<longrightarrow>
        limitsOfRun rt opts l inps ! i \<le> limitsOfRun rt opts l inps ! j" for l i j
    using s [of l] by (auto simp: sorted_iff_nth_mono)
  have "limitsOfRun rt opts l inps ! 0 = l" for l
    by (simp add: limitsOfRun_def)
  with m [of 0 j l0]
  have i: "initialTokenLimit opts initialData = Limit l0
        \<and> j < length (limitsOfRun rt opts l0 inps) \<longrightarrow>
        l0 \<le> limitsOfRun rt opts l0 inps ! j"
    by simp
  have g: "fst (tick rt opts tokenLimit inp) \<noteq> tokenLimit \<longrightarrow>
        plan opts = ''pro''
        \<and> (\<exists>blocks a. fetched inp = Some blocks
              \<and> find (\<lambda>block. truthyFlag (isActive block)) blocks = Some a
              \<and> tokenLimit < tokensOf a
              \<and> Limit (fst (tick rt opts tokenLimit inp))
                  = getTokenLimit ''custom_max'' (Some blocks))"
    using switchedLimit_custom_max [of opts tokenLimit]
    by (auto simp: tick_def Let_def split: option.splits)
  from tick_limit_ge [of tokenLimit rt opts inp] g s [of tokenLimit] m [of i j tokenLimit] i
  show ?thesis by blast
qed

text \<open>
  Three passes from 7000: one below the quota; one that raises the quota to 50000; one with
  60000 tokens in use and a \<^verbatim>\<open>custom_max\<close> value of only 9000, which leaves the 50000.
\<close>

theorem token_limit_never_decreases_witness:
  "limitsOfRun utcHost proOptions 7000
     [tickAt 1704079800000
        [aBlock (Some ''2024-01-01T00:00:00Z'') (Some ''2024-01-01T03:00:00Z'') 6000 False False,
         aBlock (Some ''2024-01-01T03:00:00Z'') None 5000 True False],
      tickAt 1704079800000
        [aBlock (Some ''2024-01-01T00:00:00Z'') (Some ''2024-01-01T03:00:00Z'') 50000 False False,
         aBlock (Some ''2024-01-01T03:00:00Z'') None 8000 True False],
      tickAt 1704079800000
        [aBlock (Some ''2024-01-01T00:00:00Z'') (Some ''2024-01-01T03:00:00Z'') 9000 False False,
         aBlock (Some ''2024-01-01T03:00:00Z'') None 60000 True False]] = [7000, 7000, 50000, 50000]
   \<and> limitsOfRun utcHost proOptions 7000
     [tickAt 1704079800000
        [aBlock (Some ''2024-01-01T00:00:00Z'') (Some ''2024-01-01T03:00:00Z'') 6000 False False,
         aBlock (Some ''2024-01-01T03:00:00Z'') None 5000 True False],
      tickAt 1704079800000
        [aBlock (Some ''2024-01-01T00:00:00Z'') (Some ''2024-01-01T03:00:00Z'') 50000 False False,
         aBlock (Some ''2024-01-01T03:00:00Z'') None 8000 True False],
      tickAt 1704079800000
        [aBlock (Some ''2024-01-01T00:00:00Z'') (Some ''2024-01-01T03:00:00Z'') 9000 False False,
         aBlock (Some ''2024-01-01T03:00:00Z'') None 60000 True False]] ! 2
     \<le> limitsOfRun utcHost proOptions 7000
     [tickAt 1704079800000
        [aBlock (Some ''2024-01-01T00:00:00Z'') (Some ''2024-01-01T03:00:00Z'') 6000 False False,
         aBlock (Some ''2024-01-01T03:00:00Z'') None 5000 True False],
      tickAt 1704079800000
        [aBlock (Some ''2024-01-01T00:00:00Z'') (Some ''2024-01-01T03:00:00Z'') 50000 False False,
         aBlock (Some ''2024-01-01T03:00:00Z'') None 8000 True False],
      tickAt 1704079800000
        [aBlock (Some ''2024-01-01T00:00:00Z'') (Some ''2024-01-01T03:00:00Z'') 9000 False False,
         aBlock (Some ''2024-01-01T03:00:00Z'') None 60000 True False]] ! 3"
proof -
  let ?i1 = "tickAt 1704079800000
        [aBlock (Some ''2024-01-01T00:00:00Z'') (Some ''2024-01-01T03:00:00Z'') 6000 False False,
         aBlock (Some ''2024-01-01T03:00:00Z'') None 5000 True False]"
  let ?i2 = "tickAt 1704079800000
        [aBlock (Some ''2024-01-01T00:00:00Z'') (Some ''2024-01-01T03:00:00Z'') 50000 False False,
         aBlock (Some ''2024-01-01T03:00:00Z'') None 8000 True False]"
  let ?i3 = "tickAt 1704079800000
        [aBlock (Some ''2024-01-01T00:00:00Z'') (Some ''2024-01-01T03:00:00Z'') 9000 False False,
         aBlock (Some ''2024-01-01T03:00:00Z'') None 60000 True False]"
  have f: "fetched (tickAt c bs) = Some bs" for c bs by (simp add: tickAt_def)
  have p: "plan proOptions = ''pro''" by (simp add: proOptions_def)
  note fl = tick_exceed_flag(1) [where rt = utcHost and opts = proOptions,
      OF f [of 1704079800000] demo_blocks_active demo_blocks_parse utcHost_zone]
  note rn = tick_renders [where rt = utcHost and opts = proOptions,
      OF f [of 1704079800000] demo_blocks_active demo_blocks_parse utcHost_zone]
  have l1: "fst (tick utcHost proOptions 7000 ?i1) = 7000"
    by (simp add: fl switchedLimit_def tokensOf_aBlock)
  have l2: "fst (tick utcHost proOptions 7000 ?i2) = 50000"
    by (simp add: fl switchedLimit_def tokensOf_aBlock demo_custom_max p)
  have l3: "fst (tick utcHost proOptions 50000 ?i3) = 50000"
    by (simp add: fl switchedLimit_def tokensOf_aBlock demo_custom_max p)
  from rn [of 7000 6000 5000] obtain s1 where s1: "snd (tick utcHost proOptions 7000 ?i1) = Rendered s1"
    by blast
  from rn [of 7000 50000 8000] obtain s2 where s2: "snd (tick utcHost proOptions 7000 ?i2) = Rendered s2"
    by blast
  from rn [of 50000 9000 60000] obtain s3 where s3: "snd (tick utcHost proOptions 50000 ?i3) = Rendered s3"
    by blast
  have "map fst (monitorLoop utcHost proOptions 7000 [?i1, ?i2, ?i3])
          = 7000 # map fst (monitorLoop utcHost proOptions 7000 [?i2, ?i3])"
    using monitorLoop_continues [OF s1, of "[?i2, ?i3]"] by (simp only: l1)
  also have "map fst (monitorLoop utcHost proOptions 7000 [?i2, ?i3])
          = 50000 # map fst (monitorLoop utcHost proOptions 50000 [?i3])"
    using monitorLoop_continues [OF s2, of "[?i3]"] by (simp only: l2)
  also have "map fst (monitorLoop utcHost proOptions 50000 [?i3])
          = 50000 # map fst (monitorLoop utcHost proOptions 50000 [])"
    using monitorLoop_continues [OF s3, of "[]"] by (simp only: l3)
  finally have run: "limitsOfRun utcHost proOptions 7000 [?i1, ?i2, ?i3] = [7000, 7000, 50000, 50000]"
    by (simp add: limitsOfRun_def)
  then have len: "(2::nat) \<le> 3 \<and> 3 < length (limitsOfRun utcHost proOptions 7000 [?i1, ?i2, ?i3])"
    by simp
  from token_limit_never_decreases
    [where rt = utcHost and opts = proOptions and tokenLimit = 7000
       and inps = "[?i1, ?i2, ?i3]" and i = 2 and j = 3] len
  have "limitsOfRun utcHost proOptions 7000 [?i1, ?i2, ?i3] ! 2
          \<le> limitsOfRun utcHost proOptions 7000 [?i1, ?i2, ?i3] ! 3"
    by blast
  with run show ?thesis by blast
qed

end
